theory Spec2Isabelle
  imports Main "HOL-Library.Sublist" "HOL-Library.Multiset" "HOL-Library.Product_Lexorder"
begin

section \<open>Texts and character classes\<close>

text \<open>
  A Python \<open>str\<close> is a sequence of code points. The model takes the code points
  below 256, one \<open>char\<close> each, so \<open>length\<close> is Python's \<open>len\<close>. The classes
  below are those of Python 3 on that range: \<open>str.isspace\<close> (used by
  \<open>str.strip\<close>, \<open>str.split\<close> and the pattern \<open>\s\<close>), the word characters of
  \<open>\w\<close> and \<open>\b\<close>, the decimal digits of \<open>\d\<close>, and \<open>str.lower\<close>.
\<close>

definition is_space :: "char \<Rightarrow> bool" where
  "is_space c = (of_char c \<in> set [9, 10, 11, 12, 13, 28, 29, 30, 31, 32, 133, 160 :: nat])"

definition is_digit :: "char \<Rightarrow> bool" where
  "is_digit c = (48 \<le> (of_char c :: nat) \<and> (of_char c :: nat) \<le> 57)"

definition is_upper :: "char \<Rightarrow> bool" where
  "is_upper c = (65 \<le> (of_char c :: nat) \<and> (of_char c :: nat) \<le> 90)"

definition is_lower :: "char \<Rightarrow> bool" where
  "is_lower c = (97 \<le> (of_char c :: nat) \<and> (of_char c :: nat) \<le> 122)"

definition is_alnum :: "char \<Rightarrow> bool" where
  "is_alnum c = (is_lower c \<or> is_upper c \<or> is_digit c)"

definition is_word :: "char \<Rightarrow> bool" where
  "is_word c = (is_alnum c \<or> c = CHR ''_'' \<or>
     of_char c \<in> set [170, 178, 179, 181, 185, 186, 188, 189, 190 :: nat] \<or>
     (192 \<le> (of_char c :: nat) \<and> (of_char c :: nat) \<noteq> 215 \<and> (of_char c :: nat) \<noteq> 247))"

definition lower_char :: "char \<Rightarrow> char" where
  "lower_char c =
     (if is_upper c \<or> (192 \<le> (of_char c :: nat) \<and> (of_char c :: nat) \<le> 222 \<and> (of_char c :: nat) \<noteq> 215)
      then char_of (of_char c + 32 :: nat) else c)"

definition upper_char :: "char \<Rightarrow> char" where
  "upper_char c =
     (if is_lower c \<or> (224 \<le> (of_char c :: nat) \<and> (of_char c :: nat) \<le> 254 \<and> (of_char c :: nat) \<noteq> 247)
      then char_of (of_char c - 32 :: nat) else c)"

definition lower :: "string \<Rightarrow> string" where
  "lower s = map lower_char s"

definition strip :: "string \<Rightarrow> string" where
  "strip s = rev (dropWhile is_space (rev (dropWhile is_space s)))"

section \<open>Sentence segmentation (summarizer.py)\<close>

text \<open>
  \<open>re.split(r'[.!?]+', text)\<close>: the text is cut at every maximal run of
  \<open>.\<close>, \<open>!\<close>, \<open>?\<close>; a run at the start or the end leaves an empty piece there.
\<close>

definition is_terminal :: "char \<Rightarrow> bool" where
  "is_terminal c = (c = CHR ''.'' \<or> c = CHR ''!'' \<or> c = CHR ''?'')"

definition starts_terminal :: "string \<Rightarrow> bool" where
  "starts_terminal s = (case s of [] \<Rightarrow> False | d # ds \<Rightarrow> is_terminal d)"

fun re_split_terminal :: "string \<Rightarrow> string list" where
  "re_split_terminal [] = [[]]"
| "re_split_terminal (c # cs) =
     (if is_terminal c then
        (if starts_terminal cs then re_split_terminal cs else [] # re_split_terminal cs)
      else
        (case re_split_terminal cs of
           [] \<Rightarrow> [[c]]
         | f # fs \<Rightarrow> (c # f) # fs))"

text \<open>
  \<open>[s.strip() for s in sentences if len(s.strip()) > n]\<close>, with \<open>n\<close> = 20 in
  \<open>extract_key_sentences_regex\<close>, 50 in \<open>extract_hybrid_summary\<close> and 30 in
  \<open>extract_case_summary\<close>.
\<close>

definition segment :: "nat \<Rightarrow> string \<Rightarrow> string list" where
  "segment n text = map strip (filter (\<lambda>s. n < length (strip s)) (re_split_terminal text))"


section \<open>Regular expressions (the part of Python's \<open>re\<close> the sources use)\<close>

text \<open>
  A backtracking matcher. A matcher state holds the character just before the current
  position (none at the start of the text), the text still to be read, and the text of
  the capture group once it is closed. \<open>rx_ends r st\<close> lists the states in which
  \<open>r\<close> can finish when started in \<open>st\<close>, in the order in which Python's engine
  tries them (alternatives left to right, repetition greedy), so its head is the match
  Python reports. \<open>\b\<close> holds where exactly one of the two neighbouring characters is
  a word character.
\<close>

datatype rx =
    Eps
  | Cls "char \<Rightarrow> bool"
  | Cat rx rx
  | Alt rx rx
  | Star rx
  | Grp rx
  | WordB

datatype mstate = MState (prev: "char option") (rest: string) (cap: "string option")

primrec star_ends :: "(mstate \<Rightarrow> mstate list) \<Rightarrow> nat \<Rightarrow> mstate \<Rightarrow> mstate list" where
  "star_ends f 0 st = [st]"
| "star_ends f (Suc n) st =
     concat (map (star_ends f n)
       (filter (\<lambda>st'. length (rest st') < length (rest st)) (f st))) @ [st]"

definition word_before :: "mstate \<Rightarrow> bool" where
  "word_before st = (case prev st of None \<Rightarrow> False | Some c \<Rightarrow> is_word c)"

definition word_after :: "mstate \<Rightarrow> bool" where
  "word_after st = (case rest st of [] \<Rightarrow> False | c # cs \<Rightarrow> is_word c)"

primrec rx_ends :: "rx \<Rightarrow> mstate \<Rightarrow> mstate list" where
  "rx_ends Eps st = [st]"
| "rx_ends (Cls p) st =
     (case rest st of
        [] \<Rightarrow> []
      | c # cs \<Rightarrow> if p c then [MState (Some c) cs (cap st)] else [])"
| "rx_ends (Cat a b) st = concat (map (rx_ends b) (rx_ends a st))"
| "rx_ends (Alt a b) st = rx_ends a st @ rx_ends b st"
| "rx_ends (Star a) st = star_ends (rx_ends a) (length (rest st)) st"
| "rx_ends (Grp a) st =
     map (\<lambda>st'. MState (prev st') (rest st')
            (Some (take (length (rest st) - length (rest st')) (rest st))))
       (rx_ends a st)"
| "rx_ends WordB st = (if word_before st \<noteq> word_after st then [st] else [])"

definition Plus :: "rx \<Rightarrow> rx" where
  "Plus a = Cat a (Star a)"

definition Opt :: "rx \<Rightarrow> rx" where
  "Opt a = Alt a Eps"

primrec Rep :: "nat \<Rightarrow> rx \<Rightarrow> rx" where
  "Rep 0 a = Eps"
| "Rep (Suc n) a = Cat a (Rep n a)"

definition Chr :: "char \<Rightarrow> rx" where
  "Chr c = Cls (\<lambda>x. x = c)"

definition ChrI :: "char \<Rightarrow> rx" where
  "ChrI c = Cls (\<lambda>x. lower_char x = lower_char c)"

primrec Lit :: "string \<Rightarrow> rx" where
  "Lit [] = Eps"
| "Lit (c # cs) = Cat (Chr c) (Lit cs)"

primrec LitI :: "string \<Rightarrow> rx" where
  "LitI [] = Eps"
| "LitI (c # cs) = Cat (ChrI c) (LitI cs)"

text \<open>A character class under \<open>re.IGNORECASE\<close>: the lower or the upper case of the character is in it.\<close>

definition icase :: "(char \<Rightarrow> bool) \<Rightarrow> char \<Rightarrow> bool" where
  "icase p c = (p (lower_char c) \<or> p (upper_char c))"

text \<open>\<open>re.search(r, s)\<close> as a truth value: \<open>r\<close> matches at some position of \<open>s\<close>.\<close>

fun search_from :: "rx \<Rightarrow> char option \<Rightarrow> string \<Rightarrow> bool" where
  "search_from r p [] = (rx_ends r (MState p [] None) \<noteq> [])"
| "search_from r p (c # cs) =
     (rx_ends r (MState p (c # cs) None) \<noteq> [] \<or> search_from r (Some c) cs)"

definition re_search :: "rx \<Rightarrow> string \<Rightarrow> bool" where
  "re_search r s = search_from r None s"

text \<open>
  \<open>re.findall(r, s)\<close>: the matches from left to right, without overlap; each is the
  text of the capture group when the pattern has one, the whole match otherwise. None
  of the patterns below matches the empty string.
\<close>

definition match_text :: "string \<Rightarrow> mstate \<Rightarrow> string" where
  "match_text s st =
     (case cap st of Some g \<Rightarrow> g | None \<Rightarrow> take (length s - length (rest st)) s)"

function findall_from :: "rx \<Rightarrow> char option \<Rightarrow> string \<Rightarrow> string list" where
  "findall_from r p s =
     (case rx_ends r (MState p s None) of
        [] \<Rightarrow> (case s of [] \<Rightarrow> [] | c # cs \<Rightarrow> findall_from r (Some c) cs)
      | st # sts \<Rightarrow>
          if length (rest st) < length s
          then match_text s st # findall_from r (prev st) (rest st)
          else match_text s st # (case s of [] \<Rightarrow> [] | c # cs \<Rightarrow> findall_from r (Some c) cs))"
  by pat_completeness auto
termination
  by (relation "measure (\<lambda>(r, p, s). length s)") auto

definition re_findall :: "rx \<Rightarrow> string \<Rightarrow> string list" where
  "re_findall r s = findall_from r None s"

section \<open>The keyword heuristic (summarizer.py, \<open>extract_key_sentences_regex\<close>)\<close>

definition legal_keywords :: "string list" where
  "legal_keywords =
     [''held'', ''directed'', ''guidelines'', ''ordered'', ''ruled'', ''decided'',
      ''concluded'', ''determined'', ''found'', ''established'', ''declared'',
      ''maintained'', ''observed'', ''noted'', ''emphasized'', ''highlighted'',
      ''clarified'', ''interpreted'', ''construed'', ''applied'', ''followed'',
      ''overruled'', ''distinguished'', ''approved'', ''disapproved'', ''rejected'',
      ''allowed'', ''dismissed'', ''quashed'', ''set aside'', ''remanded'',
      ''affirmed'', ''reversed'', ''modified'', ''varied'', ''substituted'']"

definition court_keywords :: "string list" where
  "court_keywords =
     [''supreme court'', ''high court'', ''district court'', ''tribunal'',
      ''commission'', ''authority'', ''board'', ''council'']"

definition section_keywords :: "string list" where
  "section_keywords =
     [''section'', ''article'', ''clause'', ''sub-section'', ''proviso'',
      ''schedule'', ''act'', ''code'', ''regulation'', ''rule'']"

text \<open>Python's \<open>k in s\<close> on strings: \<open>k\<close> occurs in \<open>s\<close> as a contiguous piece.\<close>

fun starts_with :: "string \<Rightarrow> string \<Rightarrow> bool" where
  "starts_with [] s = True"
| "starts_with (k # ks) [] = False"
| "starts_with (k # ks) (c # cs) = (k = c \<and> starts_with ks cs)"

fun contains :: "string \<Rightarrow> string \<Rightarrow> bool" where
  "contains k [] = (k = [])"
| "contains k (c # cs) = (starts_with k (c # cs) \<or> contains k cs)"

definition hits :: "int \<Rightarrow> string list \<Rightarrow> string \<Rightarrow> int" where
  "hits w ks s = sum_list (map (\<lambda>k. if contains k s then w else 0) ks)"

text \<open>\<open>\(\d{4}\)\s+\d+\s+[A-Z]+\s+\d+\<close>\<close>

definition citation_rx :: rx where
  "citation_rx =
     Cat (Chr CHR ''('') (Cat (Rep 4 (Cls is_digit)) (Cat (Chr CHR '')'')
     (Cat (Plus (Cls is_space)) (Cat (Plus (Cls is_digit))
     (Cat (Plus (Cls is_space)) (Cat (Plus (Cls is_upper))
     (Cat (Plus (Cls is_space)) (Plus (Cls is_digit)))))))))"

text \<open>\<open>\b(vs|versus|v\.)\b\<close> with \<open>re.IGNORECASE\<close>\<close>

definition versus_rx :: rx where
  "versus_rx =
     Cat WordB (Cat (Grp (Alt (LitI ''vs'') (Alt (LitI ''versus'') (LitI ''v.'')))) WordB)"

text \<open>\<open>Justice\s+[A-Z]\<close>\<close>

definition justice_rx :: rx where
  "justice_rx = Cat (Lit ''Justice'') (Cat (Plus (Cls is_space)) (Cls is_upper))"

text \<open>\<open>\d{1,2}[-/]\d{1,2}[-/]\d{4}\<close>\<close>

definition date_rx :: rx where
  "date_rx =
     Cat (Cls is_digit) (Cat (Opt (Cls is_digit)) (Cat (Cls (\<lambda>c. c = CHR ''-'' \<or> c = CHR ''/''))
     (Cat (Cls is_digit) (Cat (Opt (Cls is_digit)) (Cat (Cls (\<lambda>c. c = CHR ''-'' \<or> c = CHR ''/''))
     (Rep 4 (Cls is_digit)))))))"

text \<open>The body of the scoring loop, for one sentence.\<close>

definition score :: "string \<Rightarrow> int" where
  "score sentence =
     (let sentence_lower = lower sentence in
        hits 3 legal_keywords sentence_lower
      + hits 2 court_keywords sentence_lower
      + hits 2 section_keywords sentence_lower
      + (if re_search citation_rx sentence then 3 else 0)
      + (if re_search versus_rx sentence then 2 else 0)
      + (if re_search justice_rx sentence then 2 else 0)
      + (if re_search date_rx sentence then 1 else 0)
      + (if 100 < length sentence then 1 else 0))"

text \<open>Python's slice \<open>xs[:n]\<close>: a negative \<open>n\<close> drops the last \<open>-n\<close> elements.\<close>

definition py_take :: "int \<Rightarrow> 'a list \<Rightarrow> 'a list" where
  "py_take n xs = (if 0 \<le> n then take (nat n) xs else take (length xs - nat (- n)) xs)"

text \<open>
  \<open>list.sort(key=..., reverse=True)\<close> is a stable sort: elements with equal keys keep
  their order, also under \<open>reverse=True\<close>. It is modelled by the stable insertion sort
  \<open>sort_key\<close> on the negated score.
\<close>

definition sort_by_score_desc :: "(string \<times> int) list \<Rightarrow> (string \<times> int) list" where
  "sort_by_score_desc scored = sort_key (\<lambda>x. - snd x) scored"

definition extract_key_sentences_regex :: "string \<Rightarrow> int \<Rightarrow> string list" where
  "extract_key_sentences_regex text max_sentences =
     (if text = [] \<or> length (strip text) < 100 then []
      else
        let sentences = segment 20 text;
            scored_sentences = map (\<lambda>sentence. (sentence, score sentence)) sentences
        in map fst (py_take max_sentences (sort_by_score_desc scored_sentences)))"

section \<open>The statistical ranker (summarizer.py, \<open>extract_summary_sumy\<close>)\<close>

text \<open>
  The sumy library is outside the repository; it is a parameter of the model. A call
  into it either raises a Python exception (\<open>Inl\<close>) or returns (\<open>Inr\<close>):
  \<open>from_string\<close> is \<open>PlaintextParser.from_string(text, Tokenizer(self.language))\<close>,
  \<open>summarize k doc n\<close> is the call \<open>summarizer(parser.document, n)\<close> of the
  summarizer of kind \<open>k\<close> (built with the instance's stemmer and stop words),
  followed by \<open>str\<close> on each selected sentence. \<open>init_error\<close> is what the
  constructor \<open>LegalCaseSummarizer()\<close> raises when it cannot set up the stemmer, the
  stop words or the tokenizer data; the methods are those of a constructed object and
  do not read it.
\<close>

datatype exn = Exn string

datatype summarizer_kind = LsaSummarizer | LexRankSummarizer | TextRankSummarizer

record 'doc sumy =
  init_error :: "exn option"
  from_string :: "string \<Rightarrow> exn + 'doc"
  summarize :: "summarizer_kind \<Rightarrow> 'doc \<Rightarrow> int \<Rightarrow> exn + string list"

definition choose_summarizer :: "string \<Rightarrow> summarizer_kind" where
  "choose_summarizer method =
     (if method = ''lsa'' then LsaSummarizer
      else if method = ''lexrank'' then LexRankSummarizer
      else if method = ''textrank'' then TextRankSummarizer
      else LsaSummarizer)"

text \<open>The body of the \<open>try\<close> block.\<close>

definition sumy_try :: "'doc sumy \<Rightarrow> string \<Rightarrow> int \<Rightarrow> string \<Rightarrow> exn + string list" where
  "sumy_try lib text max_sentences method =
     (if text = [] \<or> length (strip text) < 200 then Inr []
      else
        (case from_string lib text of
           Inl e \<Rightarrow> Inl e
         | Inr document \<Rightarrow> summarize lib (choose_summarizer method) document max_sentences))"

text \<open>\<open>except Exception: return []\<close>\<close>

definition extract_summary_sumy ::
  "'doc sumy \<Rightarrow> string \<Rightarrow> int \<Rightarrow> string \<Rightarrow> exn + string list" where
  "extract_summary_sumy lib text max_sentences method =
     (case sumy_try lib text max_sentences method of
        Inl e \<Rightarrow> Inr []
      | Inr summary_sentences \<Rightarrow> Inr summary_sentences)"

section \<open>The hybrid summary (summarizer.py, \<open>extract_hybrid_summary\<close>, \<open>extract_case_summary\<close>)\<close>

text \<open>
  One round of
  \<open>if sentence not in all_sentences and len(all_sentences) < max_sentences: all_sentences.append(sentence)\<close>.
\<close>

definition add_sentence :: "int \<Rightarrow> string list \<Rightarrow> string \<Rightarrow> string list" where
  "add_sentence max_sentences all_sentences sentence =
     (if sentence \<notin> set all_sentences \<and> int (length all_sentences) < max_sentences
      then all_sentences @ [sentence] else all_sentences)"

definition hybrid_try :: "'doc sumy \<Rightarrow> string \<Rightarrow> int \<Rightarrow> exn + string list" where
  "hybrid_try lib text max_sentences =
     (let regex_sentences = extract_key_sentences_regex text max_sentences in
      case extract_summary_sumy lib text max_sentences ''lsa'' of
        Inl e \<Rightarrow> Inl e
      | Inr sumy_sentences \<Rightarrow>
          let all1 = foldl (add_sentence max_sentences) [] regex_sentences;
              all2 = foldl (add_sentence max_sentences) all1 sumy_sentences
          in if int (length all2) < max_sentences
             then Inr (foldl (add_sentence max_sentences) all2 (segment 50 text))
             else Inr all2)"

definition extract_hybrid_summary :: "'doc sumy \<Rightarrow> string \<Rightarrow> int \<Rightarrow> exn + string list" where
  "extract_hybrid_summary lib text max_sentences =
     (case hybrid_try lib text max_sentences of
        Inl e \<Rightarrow> Inr []
      | Inr all_sentences \<Rightarrow> Inr all_sentences)"

text \<open>\<open>sep.join(xs)\<close> and \<open>s.endswith(suf)\<close>.\<close>

fun join :: "string \<Rightarrow> string list \<Rightarrow> string" where
  "join sep [] = []"
| "join sep [x] = x"
| "join sep (x # y # ys) = x @ sep @ join sep (y # ys)"

definition endswith :: "string \<Rightarrow> string \<Rightarrow> bool" where
  "endswith s suf = suffix suf s"

definition case_summary_try ::
  "'doc sumy \<Rightarrow> string \<Rightarrow> string option \<Rightarrow> int \<Rightarrow> exn + string" where
  "case_summary_try lib case_text case_title max_sentences =
     (if case_text = [] then Inr []
      else
        (case extract_hybrid_summary lib case_text max_sentences of
           Inl e \<Rightarrow> Inl e
         | Inr hybrid \<Rightarrow>
             let s1 = (if hybrid = [] then extract_key_sentences_regex case_text max_sentences
                       else hybrid);
                 summary_sentences =
                      (if s1 = [] then py_take max_sentences (segment 30 case_text) else s1);
                 joined = join ''. '' summary_sentences;
                 summary = (if \<not> endswith joined ''.'' then joined @ ''.'' else joined)
             in (case case_title of
                   None \<Rightarrow> Inr summary
                 | Some title \<Rightarrow> if title = [] then Inr summary
                                  else Inr (title @ '': '' @ summary))))"

definition extract_case_summary ::
  "'doc sumy \<Rightarrow> string \<Rightarrow> string option \<Rightarrow> int \<Rightarrow> exn + string" where
  "extract_case_summary lib case_text case_title max_sentences =
     (case case_summary_try lib case_text case_title max_sentences of
        Inl e \<Rightarrow> Inr ''Summary extraction failed.''
      | Inr summary \<Rightarrow> Inr summary)"

text \<open>The string ends with a period and not with two.\<close>

definition single_terminal_period :: "string \<Rightarrow> bool" where
  "single_terminal_period s = (endswith s ''.'' \<and> \<not> endswith s ''..'')"

section \<open>The command line (summarizer.py, \<open>main\<close>)\<close>

text \<open>
  The command line as \<open>argparse\<close> sees it, with the defaults filled in (\<open>--title\<close>
  the empty string, \<open>--method\<close> \<open>hybrid\<close>, \<open>--max_sentences\<close> 4, \<open>--output\<close>
  \<open>json\<close>): \<open>--text\<close> is required and may be absent; the value of
  \<open>--max_sentences\<close> is what \<open>int\<close> makes of it, nothing when \<open>int\<close> rejects it;
  \<open>arg_unrecognized\<close> is what \<open>argparse\<close> cannot place: the arguments that
  belong to no option and the options left without their value. A command line that
  asks for the help text (\<open>-h\<close>) is not among those described. \<open>parse_args\<close>
  ends the process with a usage error (exit status 2) when \<open>--text\<close> is absent, when
  \<open>--method\<close> or \<open>--output\<close> is not one of its choices, when \<open>--max_sentences\<close> is
  not an integer, or when an argument is not recognised; every integer is accepted.
\<close>

record cli_args =
  arg_text :: "string option"
  arg_title :: string
  arg_method :: string
  arg_max_sentences :: "int option"
  arg_output :: string
  arg_unrecognized :: "string list"

record cli_namespace =
  ns_text :: string
  ns_title :: string
  ns_method :: string
  ns_max_sentences :: int
  ns_output :: string

definition method_choices :: "string list" where
  "method_choices = [''hybrid'', ''regex'', ''lsa'', ''lexrank'', ''textrank'']"

definition output_choices :: "string list" where
  "output_choices = [''json'', ''text'']"

definition parse_args :: "cli_args \<Rightarrow> unit + cli_namespace" where
  "parse_args a =
     (case arg_text a of
        None \<Rightarrow> Inl ()
      | Some t \<Rightarrow>
          if arg_method a \<notin> set method_choices then Inl ()
          else
            (case arg_max_sentences a of
               None \<Rightarrow> Inl ()
             | Some n \<Rightarrow>
                 if arg_output a \<notin> set output_choices then Inl ()
                 else if arg_unrecognized a \<noteq> [] then Inl ()
                 else Inr \<lparr> ns_text = t, ns_title = arg_title a, ns_method = arg_method a,
                            ns_max_sentences = n, ns_output = arg_output a \<rparr>))"

text \<open>
  \<open>". ".join(summary_sentences)\<close> with a period appended unless it ends with one, as
  the branches for \<open>regex\<close> and for the sumy methods do.
\<close>

definition finish_summary :: "string list \<Rightarrow> string" where
  "finish_summary summary_sentences =
     (let summary = join ''. '' summary_sentences
      in if \<not> endswith summary ''.'' then summary @ ''.'' else summary)"

text \<open>The summary, by the branch of the method.\<close>

definition main_summary :: "'doc sumy \<Rightarrow> cli_namespace \<Rightarrow> exn + string" where
  "main_summary lib args =
     (if ns_method args = ''regex'' then
        Inr (finish_summary (extract_key_sentences_regex (ns_text args) (ns_max_sentences args)))
      else if ns_method args \<in> set [''lsa'', ''lexrank'', ''textrank''] then
        (case extract_summary_sumy lib (ns_text args) (ns_max_sentences args) (ns_method args) of
           Inl e \<Rightarrow> Inl e
         | Inr summary_sentences \<Rightarrow> Inr (finish_summary summary_sentences))
      else
        extract_case_summary lib (ns_text args) (Some (ns_title args)) (ns_max_sentences args))"

text \<open>
  \<open>main\<close>: after the arguments are parsed, everything runs inside \<open>try\<close>, and an
  exception ends the process with exit status 1 (\<open>Failed\<close>): the constructor of the
  summarizer, the summary, and, for the output format \<open>json\<close>, the report, whose
  compression ratio divides by the length of the text and raises \<open>ZeroDivisionError\<close>
  when the text is empty. Otherwise the summary is printed, alone or inside the report;
  the layout of the report is not part of the model.
\<close>

datatype cli_result = UsageError | Failed exn | Summary string

definition main :: "'doc sumy \<Rightarrow> cli_args \<Rightarrow> cli_result" where
  "main lib a =
     (case parse_args a of
        Inl u \<Rightarrow> UsageError
      | Inr args \<Rightarrow>
          (case init_error lib of
             Some e \<Rightarrow> Failed e
           | None \<Rightarrow>
               (case main_summary lib args of
                  Inl e \<Rightarrow> Failed e
                | Inr summary \<Rightarrow>
                    if ns_output args = ''json'' then
                      (if length (ns_text args) = 0 then Failed (Exn ''division by zero'')
                       else Summary summary)
                    else Summary summary)))"

section \<open>The judgment identifier (unified_scraper.py, bhc_scraper.py, sc_scraper.py)\<close>

text \<open>\<open>s.split()\<close>: the maximal pieces of \<open>s\<close> without whitespace, in order.\<close>

fun split_ws :: "string \<Rightarrow> string \<Rightarrow> string list" where
  "split_ws cur [] = (if cur = [] then [] else [cur])"
| "split_ws cur (c # cs) =
     (if is_space c then (if cur = [] then split_ws [] cs else cur # split_ws [] cs)
      else split_ws (cur @ [c]) cs)"

definition py_split :: "string \<Rightarrow> string list" where
  "py_split s = split_ws [] s"

text \<open>
  unified_scraper.py, \<open>save_case\<close>, the lines under \<open># Generate unique ID\<close>:
  \<open>re.sub(r'[^a-zA-Z0-9\s]', '', title)\<close>, \<open>split()[:3]\<close>,
  \<open>'_'.join(words).lower()\<close>, \<open>re.sub(r'[^0-9]', '', date)[:8]\<close>, and the
  dictionary lookup \<open>.get(court, "court")\<close>.
\<close>

definition court_prefix :: "string \<Rightarrow> string" where
  "court_prefix court =
     (if court = ''Supreme Court of India'' then ''sc''
      else if court = ''Delhi High Court'' then ''dhc''
      else if court = ''Bombay High Court'' then ''bhc''
      else ''court'')"

definition save_case_judgment_id :: "string \<Rightarrow> string \<Rightarrow> string \<Rightarrow> string" where
  "save_case_judgment_id court title date =
     (let clean_title = filter (\<lambda>c. is_alnum c \<or> is_space c) title;
          words = take 3 (py_split clean_title);
          id_suffix = lower (join ''_'' words);
          clean_date = take 8 (filter is_digit date)
      in court_prefix court @ ''_'' @ id_suffix @ ''_'' @ clean_date)"

text \<open>bhc_scraper.py, \<open>generate_judgment_id\<close>.\<close>

definition bhc_generate_judgment_id :: "string \<Rightarrow> string \<Rightarrow> string" where
  "bhc_generate_judgment_id title date =
     (let clean_title = filter (\<lambda>c. is_alnum c \<or> is_space c) title;
          words = take 3 (py_split clean_title);
          id_suffix = lower (join ''_'' words);
          clean_date = take 8 (filter is_digit date)
      in ''bhc_'' @ id_suffix @ ''_'' @ clean_date)"

text \<open>
  sc_scraper.py, \<open>generate_judgment_id\<close>:
  \<open>re.sub(r'[^a-zA-Z0-9]', '_', title.lower())\<close>, \<open>re.sub(r'_+', '_', title_slug)\<close>,
  \<open>[:50]\<close>, and \<open>re.sub(r'[^0-9]', '', date)\<close>.
\<close>

fun squeeze_underscores :: "string \<Rightarrow> string" where
  "squeeze_underscores (c # d # cs) =
     (if c = CHR ''_'' \<and> d = CHR ''_'' then squeeze_underscores (d # cs)
      else c # squeeze_underscores (d # cs))"
| "squeeze_underscores cs = cs"

definition sc_generate_judgment_id :: "string \<Rightarrow> string \<Rightarrow> string" where
  "sc_generate_judgment_id title date =
     (let title_slug = map (\<lambda>c. if is_alnum c then c else CHR ''_'') (lower title);
          title_slug = squeeze_underscores title_slug;
          title_slug = take 50 title_slug;
          date_slug = filter is_digit date
      in ''sc_'' @ title_slug @ ''_'' @ date_slug)"

text \<open>
  The key generator as the specification words it: from the title, drop every character
  that is neither alphanumeric nor whitespace, take the first three whitespace-delimited
  tokens, lowercase them and join them with \<open>_\<close>; from the date, keep the digits and
  take the first eight; compose \<open>{court_prefix}_{title_tokens}_{date_digits}\<close>.
\<close>

definition make_key :: "string \<Rightarrow> string \<Rightarrow> string \<Rightarrow> string" where
  "make_key court_pre title date =
     court_pre @ ''_''
       @ join ''_'' (map lower (take 3 (py_split (filter (\<lambda>c. is_alnum c \<or> is_space c) title))))
       @ ''_'' @ take 8 (filter is_digit date)"

section \<open>Saving a case (unified_scraper.py, \<open>save_case\<close>)\<close>

definition generate_summary :: "string \<Rightarrow> string" where
  "generate_summary text =
     (if text = [] then ''Judgment summary''
      else
        let summary = strip (take 200 text)
        in if 200 < length text then summary @ ''...'' else summary)"

definition letter :: rx where
  "letter = Cls (icase is_upper)"

definition spaces :: rx where
  "spaces = Plus (Cls is_space)"

text \<open>
  \<open>Section\s+[0-9]+[A-Z]*\s+of\s+[A-Z]+\<close>, \<open>[A-Z]+\s+Section\s+[0-9]+[A-Z]*\<close> and
  \<open>[A-Z]{2,}\s+[0-9]+[A-Z]*\<close>, each with \<open>re.IGNORECASE\<close>.
\<close>

definition section_patterns :: "rx list" where
  "section_patterns =
     [Cat (LitI ''Section'') (Cat spaces (Cat (Plus (Cls is_digit)) (Cat (Star letter)
        (Cat spaces (Cat (LitI ''of'') (Cat spaces (Plus letter))))))),
      Cat (Plus letter) (Cat spaces (Cat (LitI ''Section'') (Cat spaces
        (Cat (Plus (Cls is_digit)) (Star letter))))),
      Cat letter (Cat letter (Cat (Star letter) (Cat spaces
        (Cat (Plus (Cls is_digit)) (Star letter)))))]"

text \<open>\<open>list(set(sections))\<close> has no specified order; the result is taken as the set.\<close>

definition extract_referenced_sections :: "string \<Rightarrow> string set" where
  "extract_referenced_sections text =
     (if text = [] then {}
      else set (concat (map (\<lambda>pattern. re_findall pattern text) section_patterns)))"

definition legal_terms :: "string list" where
  "legal_terms =
     [''bail'', ''anticipatory'', ''constitutional'', ''criminal'', ''civil'',
      ''writ'', ''petition'', ''appeal'', ''revision'', ''review'',
      ''498A'', ''IPC'', ''CrPC'', ''CPC'', ''Constitution'']"

definition generate_tags :: "string \<Rightarrow> string \<Rightarrow> string list" where
  "generate_tags title text =
     (let combined_text = lower (title @ '' '' @ text)
      in filter (\<lambda>term. contains (lower term) combined_text) legal_terms)"

record judgment_doc =
  doc_id :: string
  doc_case_title :: string
  doc_court :: string
  doc_judges :: "string list"
  doc_date :: string
  doc_citation :: string
  doc_pdf_url :: string
  doc_text :: string
  doc_summary :: string
  doc_referenced_sections :: "string set"
  doc_tags :: "string list"
  doc_source_url :: string
  doc_scraped_at :: string

text \<open>
  What \<open>save_case\<close> reads besides its arguments: the MongoDB collection
  \<open>judgments\<close>, whether the server answers (a failed call raises, and the function
  returns \<open>False\<close>), and the clock read by \<open>datetime.now().isoformat()\<close>.
\<close>

record world =
  stored :: "judgment_doc list"
  reachable :: bool
  now :: string

definition save_case ::
  "world \<Rightarrow> string \<Rightarrow> string \<Rightarrow> string \<Rightarrow> string list \<Rightarrow> string \<Rightarrow> string
     \<Rightarrow> string option \<Rightarrow> string option \<Rightarrow> bool \<times> world" where
  "save_case w court_name title_arg date_arg judges_arg pdf text_arg citation_arg source =
     (if \<not> reachable w then (False, w)
      else
        let judgment_id = save_case_judgment_id court_name title_arg date_arg
        in if list_ex (\<lambda>d. doc_id d = judgment_id) (stored w) then (False, w)
           else
             let doc = \<lparr> doc_id = judgment_id,
                         doc_case_title = title_arg,
                         doc_court = court_name,
                         doc_judges = judges_arg,
                         doc_date = date_arg,
                         doc_citation = (case citation_arg of None \<Rightarrow> [] | Some c \<Rightarrow> c),
                         doc_pdf_url = pdf,
                         doc_text = text_arg,
                         doc_summary = generate_summary text_arg,
                         doc_referenced_sections = extract_referenced_sections text_arg,
                         doc_tags = generate_tags title_arg text_arg,
                         doc_source_url = (case source of None \<Rightarrow> [] | Some u \<Rightarrow> u),
                         doc_scraped_at = now w \<rparr>
             in (True, w\<lparr>stored := stored w @ [doc]\<rparr>))"

section \<open>Judge names (sc_scraper.py and bhc_scraper.py, \<open>extract_judges\<close>)\<close>

text \<open>
  The argument is the page text, \<open>soup.get_text()\<close>. \<open>list(set(judges))\<close> has no
  specified order; the result is taken as the set of its elements.
\<close>

definition apostrophe :: char where
  "apostrophe = CHR 0x27"

text \<open>
  \<open>Justice\s+[A-Z][a-z]+\<close>, \<open>Hon\'ble\s+Justice\s+[A-Z][a-z]+\<close> and
  \<open>Mr\.\s+Justice\s+[A-Z][a-z]+\<close>.
\<close>

definition sc_judge_patterns :: "rx list" where
  "sc_judge_patterns =
     [Cat (Lit ''Justice'') (Cat spaces (Cat (Cls is_upper) (Plus (Cls is_lower)))),
      Cat (Lit ''Hon'') (Cat (Chr apostrophe) (Cat (Lit ''ble'') (Cat spaces
        (Cat (Lit ''Justice'') (Cat spaces (Cat (Cls is_upper) (Plus (Cls is_lower)))))))),
      Cat (Lit ''Mr.'') (Cat spaces
        (Cat (Lit ''Justice'') (Cat spaces (Cat (Cls is_upper) (Plus (Cls is_lower))))))]"

definition sc_extract_judges :: "string \<Rightarrow> string set" where
  "sc_extract_judges page_text =
     (let judges = concat (map (\<lambda>pattern. re_findall pattern page_text) sc_judge_patterns)
      in if judges \<noteq> [] then set judges else {''Unknown Judge''})"

text \<open>
  The group \<open>([A-Z][a-z]+(?:\s+[A-Z][a-z]+)*)\<close> under \<open>re.IGNORECASE\<close>, and the
  four patterns that end with it:
  \<open>Hon\'?ble\s+(?:Mr\.?\s+)?Justice\s+\<close>, \<open>Justice\s+\<close>, \<open>J\.\s*\<close> and
  \<open>Coram\s*:\s*\<close>.
\<close>

definition name_group :: rx where
  "name_group =
     Grp (Cat letter (Cat (Plus letter) (Star (Cat spaces (Cat letter (Plus letter))))))"

definition bhc_judge_patterns :: "rx list" where
  "bhc_judge_patterns =
     [Cat (LitI ''Hon'') (Cat (Opt (ChrI apostrophe)) (Cat (LitI ''ble'') (Cat spaces
        (Cat (Opt (Cat (LitI ''Mr'') (Cat (Opt (ChrI CHR ''.'')) spaces)))
        (Cat (LitI ''Justice'') (Cat spaces name_group)))))),
      Cat (LitI ''Justice'') (Cat spaces name_group),
      Cat (LitI ''J.'') (Cat (Star (Cls is_space)) name_group),
      Cat (LitI ''Coram'') (Cat (Star (Cls is_space)) (Cat (ChrI CHR '':'')
        (Cat (Star (Cls is_space)) name_group)))]"

definition bhc_extract_judges :: "string \<Rightarrow> string set" where
  "bhc_extract_judges page_text =
     (let judges = concat (map (\<lambda>pattern. re_findall pattern page_text) bhc_judge_patterns)
      in if judges \<noteq> [] then set judges else {''Bombay High Court''})"

section \<open>Example inputs\<close>

text \<open>
  A judgment text of one long sentence that trails off in an ellipsis, and two stand-ins
  for the sumy library: one whose tokenizer finds a single sentence, the whole text
  with its punctuation, and whose summarizers select it; and one whose summarizers
  raise.
\<close>

definition one_sentence :: string where
  "one_sentence = ''The appellant contends that the order of the High Court refusing anticipatory bail under Section 438 of the Code of Criminal Procedure overlooked the settled principle that arrest is not to be made as a matter of routine and that the matter therefore requires reconsideration''"

definition one_sentence_text :: string where
  "one_sentence_text = one_sentence @ ''...''"

definition one_sentence_period :: string where
  "one_sentence_period = one_sentence @ ''.''"

definition whole_text_sumy :: "string sumy" where
  "whole_text_sumy =
     \<lparr> init_error = None,
       from_string = (\<lambda>t. Inr (strip t)),
       summarize = (\<lambda>k document n. Inr (py_take n [document])) \<rparr>"

definition failing_sumy :: "string sumy" where
  "failing_sumy =
     \<lparr> init_error = None,
       from_string = (\<lambda>t. Inr (strip t)),
       summarize = (\<lambda>k document n. Inl (Exn ''SVD did not converge'')) \<rparr>"

definition three_sentences :: string where
  "three_sentences = ''The petition was heard by the bench today. The appeal is dismissed with costs. The matter is closed and the file is consigned.''"


text \<open>
  Fragments and the separators between them, put back together: the first fragment,
  the first separator, the second fragment, and so on. It serves to say what a split
  is, and no function of the sources computes it.
\<close>

fun weave :: "string list \<Rightarrow> string list \<Rightarrow> string" where
  "weave [] seps = []"
| "weave (f # fs) [] = f"
| "weave (f # fs) (r # rs) = f @ r @ weave fs rs"



section \<open>Properties of the matcher\<close>

text \<open>
  The repetition is given the length of the remaining text as fuel. Every iteration
  that is followed consumes a character, so the fuel is enough: more fuel gives the
  same states.
\<close>

lemma star_ends_enough_fuel:
  "length (rest st) \<le> n \<Longrightarrow> star_ends f (Suc n) st = star_ends f n st"
proof (induction n arbitrary: st)
  case 0
  then show ?case by simp
next
  case (Suc n)
  have "map (star_ends f (Suc n)) (filter (\<lambda>st'. length (rest st') < length (rest st)) (f st))
          = map (star_ends f n) (filter (\<lambda>st'. length (rest st') < length (rest st)) (f st))"
  proof (rule map_cong [OF refl])
    fix st' assume "st' \<in> set (filter (\<lambda>st'. length (rest st') < length (rest st)) (f st))"
    with Suc.prems have "length (rest st') \<le> n" by simp
    then show "star_ends f (Suc n) st' = star_ends f n st'" by (rule Suc.IH)
  qed
  then have "concat (map (star_ends f (Suc n))
                (filter (\<lambda>st'. length (rest st') < length (rest st)) (f st))) @ [st]
          = concat (map (star_ends f n)
                (filter (\<lambda>st'. length (rest st') < length (rest st)) (f st))) @ [st]"
    by (simp only:)
  then show ?case by (simp only: star_ends.simps)
qed

lemma star_ends_more_fuel:
  "length (rest st) \<le> n \<Longrightarrow> star_ends f (n + k) st = star_ends f n st"
  by (induction k) (simp_all add: star_ends_enough_fuel del: star_ends.simps)

section \<open>Properties of the segmenter\<close>

lemma re_split_terminal_nonempty: "re_split_terminal s \<noteq> []"
  by (induction s rule: re_split_terminal.induct) (simp_all split: list.splits)

lemma re_split_terminal_no_terminal:
  "f \<in> set (re_split_terminal s) \<Longrightarrow> c \<in> set f \<Longrightarrow> \<not> is_terminal c"
proof (induction s arbitrary: f rule: re_split_terminal.induct)
  case 1
  then show ?case by simp
next
  case (2 d ds)
  show ?case
  proof (cases "is_terminal d")
    case True
    show ?thesis
    proof (cases "starts_terminal ds")
      case True
      with \<open>is_terminal d\<close> "2.prems" "2.IH"(1) [of f] show ?thesis by simp
    next
      case False
      with \<open>is_terminal d\<close> "2.prems" have "f = [] \<or> f \<in> set (re_split_terminal ds)" by simp
      with \<open>is_terminal d\<close> False "2.prems" "2.IH"(2) [of f] show ?thesis by auto
    qed
  next
    case False
    obtain g gs where g: "re_split_terminal ds = g # gs"
      using re_split_terminal_nonempty [of ds] by (cases "re_split_terminal ds") auto
    with False "2.prems" have "f = d # g \<or> f \<in> set gs" by auto
    then show ?thesis
    proof
      assume "f = d # g"
      with "2.prems" False g "2.IH"(3) [of g] show ?thesis by auto
    next
      assume "f \<in> set gs"
      with "2.prems" False g "2.IH"(3) [of f] show ?thesis by auto
    qed
  qed
qed

lemma set_strip_subset: "set (strip s) \<subseteq> set s"
proof -
  have "set (strip s) = set (dropWhile is_space (rev (dropWhile is_space s)))"
    by (simp add: strip_def)
  also have "\<dots> \<subseteq> set (rev (dropWhile is_space s))"
    by (rule set_dropWhileD [THEN subsetI])
  also have "\<dots> \<subseteq> set s"
    using set_dropWhileD [of _ is_space s] by auto
  finally show ?thesis .
qed

lemma set_segment:
  "set (segment n s) = {strip g | g. g \<in> set (re_split_terminal s) \<and> n < length (strip g)}"
  unfolding segment_def by auto

lemma segment_no_terminal:
  assumes "x \<in> set (segment n s)" and "c \<in> set x"
  shows "\<not> is_terminal c"
proof -
  from assms(1) obtain g where g: "g \<in> set (re_split_terminal s)" and x: "x = strip g"
    unfolding set_segment by auto
  from assms(2) x have "c \<in> set g"
    using set_strip_subset [of g] by auto
  with g show ?thesis
    by (rule re_split_terminal_no_terminal)
qed

lemma segment_member_iff:
  "f \<in> set (re_split_terminal s) \<longrightarrow>
     (strip f \<in> set (segment n s) \<longleftrightarrow> n < length (strip f))"
  unfolding set_segment by auto

lemma segment_member_props:
  "x \<in> set (segment n s) \<Longrightarrow>
     n < length x \<and> (\<exists>g \<in> set (re_split_terminal s). x = strip g)"
  unfolding set_segment by auto


lemma weave_cons_first: "fs \<noteq> [] \<Longrightarrow> weave ((c # f) # tl fs) seps = c # weave (f # tl fs) seps"
  by (cases seps) simp_all






section \<open>Properties of the heuristic score\<close>

text \<open>
  C7. The score of \<open>The court held that the appellant is entitled to anticipatory bail
  under Section 438.\<close> is at least 5; it is exactly 5: 3 for the keyword \<open>held\<close> and
  2 for the keyword \<open>section\<close>, and no other signal fires.
\<close>

theorem score_scenario_held_section:
  "5 \<le> score ''The court held that the appellant is entitled to anticipatory bail under Section 438.''
   \<and> score ''The court held that the appellant is entitled to anticipatory bail under Section 438.'' = 5"
proof -
  have "score ''The court held that the appellant is entitled to anticipatory bail under Section 438.'' = 5"
    by code_simp
  then show ?thesis by simp
qed

section \<open>Properties of the judgment identifier\<close>

lemma lower_char_underscore: "lower_char CHR ''_'' = CHR ''_''"
  by (simp add: lower_char_def is_upper_def)

lemma lower_append: "lower (xs @ ys) = lower xs @ lower ys"
  by (simp add: lower_def)

lemma lower_join_underscore: "lower (join ''_'' ws) = join ''_'' (map lower ws)"
  by (induction "''_''" ws rule: join.induct) (simp_all add: lower_def lower_char_underscore)

lemma example_key:
  "save_case_judgment_id ''Supreme Court of India'' ''Arnesh Kumar vs State of Bihar'' ''2014-07-02''
     = ''sc_arnesh_kumar_vs_20140702''"
  by code_simp

lemma alnum_not_space: "is_alnum c \<Longrightarrow> \<not> is_space c"
  by (auto simp: is_alnum_def is_space_def is_lower_def is_upper_def is_digit_def)

lemma lower_char_alnum: "is_alnum c \<Longrightarrow> is_lower (lower_char c) \<or> is_digit (lower_char c)"
  by (auto simp: is_alnum_def lower_char_def is_lower_def is_upper_def is_digit_def)

lemma split_ws_tokens:
  "w \<in> set (split_ws cur s) \<Longrightarrow>
     w \<noteq> [] \<and> (\<forall>c \<in> set w. c \<in> set cur \<or> (c \<in> set s \<and> \<not> is_space c))"
proof (induction cur s arbitrary: w rule: split_ws.induct)
  case (1 cur)
  then show ?case by (auto split: if_splits)
next
  case (2 cur c cs)
  show ?case
  proof (cases "is_space c")
    case True
    show ?thesis
    proof (cases "cur = []")
      case True
      with \<open>is_space c\<close> "2.prems" have "w \<in> set (split_ws [] cs)" by simp
      from "2.IH"(1) [OF \<open>is_space c\<close> True this] show ?thesis by auto
    next
      case False
      with \<open>is_space c\<close> "2.prems" have "w = cur \<or> w \<in> set (split_ws [] cs)" by simp
      then show ?thesis
      proof
        assume "w = cur" with False show ?thesis by simp
      next
        assume "w \<in> set (split_ws [] cs)"
        from "2.IH"(2) [OF \<open>is_space c\<close> False this] show ?thesis by auto
      qed
    qed
  next
    case False
    with "2.prems" have "w \<in> set (split_ws (cur @ [c]) cs)" by simp
    from "2.IH"(3) [OF False this] False show ?thesis by auto
  qed
qed

lemma concat_split_ws:
  "concat (split_ws cur s) = cur @ filter (\<lambda>c. \<not> is_space c) s"
  by (induction cur s rule: split_ws.induct) simp_all

lemma concat_py_split: "concat (py_split s) = filter (\<lambda>c. \<not> is_space c) s"
  by (simp add: py_split_def concat_split_ws)

lemma py_split_tokens:
  "w \<in> set (py_split s) \<Longrightarrow> w \<noteq> [] \<and> (\<forall>c \<in> set w. c \<in> set s \<and> \<not> is_space c)"
  using split_ws_tokens [of w "[]" s] by (simp add: py_split_def)

lemma filter_alnum_space:
  "filter (\<lambda>c. \<not> is_space c) (filter (\<lambda>c. is_alnum c \<or> is_space c) s) = filter is_alnum s"
proof (induction s)
  case Nil
  show ?case by simp
next
  case (Cons c s)
  then show ?case using alnum_not_space [of c] by (cases "is_alnum c"; cases "is_space c") simp_all
qed

lemma lower_concat: "lower (concat ws) = concat (map lower ws)"
  by (induction ws) (simp_all add: lower_def)

lemma char_of_nat_char: "char_of (of_char c :: nat) = c"
  by simp

lemma digit_chars: "is_digit c \<longleftrightarrow> c \<in> set ''0123456789''"
proof
  assume "is_digit c"
  then have "(of_char c :: nat) \<in> {48 ..< 58}" by (simp add: is_digit_def)
  then have "(of_char c :: nat) \<in> set [48 ..< 58]" by (simp only: set_upt)
  then have "char_of (of_char c :: nat) \<in> set (map char_of [48 ..< 58 :: nat])"
    by (simp only: set_map) (rule imageI)
  moreover have "map char_of [48 ..< 58 :: nat] = ''0123456789''" by code_simp
  ultimately show "c \<in> set ''0123456789''" by (simp only: char_of_nat_char)
next
  assume "c \<in> set ''0123456789''"
  then show "is_digit c" by (auto simp: is_digit_def)
qed

lemma lower_chars: "is_lower c \<longleftrightarrow> c \<in> set ''abcdefghijklmnopqrstuvwxyz''"
proof
  assume "is_lower c"
  then have "(of_char c :: nat) \<in> {97 ..< 123}" by (simp add: is_lower_def)
  then have "(of_char c :: nat) \<in> set [97 ..< 123]" by (simp only: set_upt)
  then have "char_of (of_char c :: nat) \<in> set (map char_of [97 ..< 123 :: nat])"
    by (simp only: set_map) (rule imageI)
  moreover have "map char_of [97 ..< 123 :: nat] = ''abcdefghijklmnopqrstuvwxyz''" by code_simp
  ultimately show "c \<in> set ''abcdefghijklmnopqrstuvwxyz''" by (simp only: char_of_nat_char)
next
  assume "c \<in> set ''abcdefghijklmnopqrstuvwxyz''"
  then show "is_lower c" by (auto simp: is_lower_def)
qed

lemma upper_chars: "is_upper c \<longleftrightarrow> c \<in> set ''ABCDEFGHIJKLMNOPQRSTUVWXYZ''"
proof
  assume "is_upper c"
  then have "(of_char c :: nat) \<in> {65 ..< 91}" by (simp add: is_upper_def)
  then have "(of_char c :: nat) \<in> set [65 ..< 91]" by (simp only: set_upt)
  then have "char_of (of_char c :: nat) \<in> set (map char_of [65 ..< 91 :: nat])"
    by (simp only: set_map) (rule imageI)
  moreover have "map char_of [65 ..< 91 :: nat] = ''ABCDEFGHIJKLMNOPQRSTUVWXYZ''" by code_simp
  ultimately show "c \<in> set ''ABCDEFGHIJKLMNOPQRSTUVWXYZ''" by (simp only: char_of_nat_char)
next
  assume "c \<in> set ''ABCDEFGHIJKLMNOPQRSTUVWXYZ''"
  then show "is_upper c" by (auto simp: is_upper_def)
qed

lemma title_tokens_facts:
  fixes title :: string
  defines "tokens \<equiv> map lower (take 3 (py_split (filter (\<lambda>c. is_alnum c \<or> is_space c) title)))"
  shows "length tokens \<le> 3"
    and "\<forall>w \<in> set tokens. w \<noteq> [] \<and> (\<forall>c \<in> set w. is_lower c \<or> is_digit c)"
    and "prefix (concat tokens) (lower (filter is_alnum title))"
    and "length tokens < 3 \<longrightarrow> concat tokens = lower (filter is_alnum title)"
proof -
  let ?ws = "py_split (filter (\<lambda>c. is_alnum c \<or> is_space c) title)"
  show "length tokens \<le> 3" by (simp add: tokens_def)
  show "\<forall>w \<in> set tokens. w \<noteq> [] \<and> (\<forall>c \<in> set w. is_lower c \<or> is_digit c)"
  proof
    fix w assume "w \<in> set tokens"
    then obtain v where v: "v \<in> set ?ws" and w: "w = lower v"
      unfolding tokens_def by (auto dest: in_set_takeD)
    from py_split_tokens [OF v] have "v \<noteq> []" and "\<forall>c \<in> set v. is_alnum c"
      by auto
    then show "w \<noteq> [] \<and> (\<forall>c \<in> set w. is_lower c \<or> is_digit c)"
      using w lower_char_alnum by (auto simp: lower_def)
  qed
  have c: "concat ?ws = filter is_alnum title"
    by (simp only: concat_py_split filter_alnum_space)
  have "concat ?ws = concat (take 3 ?ws @ drop 3 ?ws)"
    by (simp only: append_take_drop_id)
  then have "concat ?ws = concat (take 3 ?ws) @ concat (drop 3 ?ws)"
    by (simp only: concat_append)
  then have "lower (concat ?ws) = lower (concat (take 3 ?ws)) @ lower (concat (drop 3 ?ws))"
    by (simp add: lower_def)
  then have "lower (filter is_alnum title) = concat tokens @ lower (concat (drop 3 ?ws))"
    by (simp only: c lower_concat tokens_def)
  then show "prefix (concat tokens) (lower (filter is_alnum title))"
    by (rule prefixI)
  show "length tokens < 3 \<longrightarrow> concat tokens = lower (filter is_alnum title)"
  proof
    assume "length tokens < 3"
    then have "take 3 ?ws = ?ws" by (simp add: tokens_def)
    then have "concat tokens = lower (concat ?ws)"
      by (simp only: tokens_def lower_concat)
    with c show "concat tokens = lower (filter is_alnum title)"
      by simp
  qed
qed

lemma example_key_stripped:
  "save_case_judgment_id ''Delhi High Court'' ''M/s. A-One (India) Ltd. v. State & Ors.''
       ''Dated: 12-03-2019 at 10:30'' = ''dhc_ms_aone_india_12032019''
   \<and> bhc_generate_judgment_id ''  Re: X!'' ''7/2014'' = ''bhc_re_x_72014''
   \<and> save_case_judgment_id ''Madras High Court''
        (''State'' @ [CHR 0x09] @ ''of'' @ [CHR 0x0A] @ ''T.N. vs'') [] = ''court_state_of_tn_''
   \<and> make_key ''sc'' ''!!!'' ''no date'' = ''sc__''"
  by code_simp

lemma date_digits_facts:
  fixes date :: string
  defines "digits \<equiv> take 8 (filter is_digit date)"
  shows "length digits \<le> 8"
    and "\<forall>c \<in> set digits. c \<in> set ''0123456789''"
    and "prefix digits (filter is_digit date)"
    and "length digits < 8 \<longrightarrow> digits = filter is_digit date"
proof -
  show "length digits \<le> 8" by (simp add: digits_def)
  show "\<forall>c \<in> set digits. c \<in> set ''0123456789''"
  proof
    fix c assume "c \<in> set digits"
    then have "c \<in> set (filter is_digit date)"
      unfolding digits_def by (rule in_set_takeD)
    then have "is_digit c" by simp
    then show "c \<in> set ''0123456789''" by (simp only: digit_chars)
  qed
  show "prefix digits (filter is_digit date)"
    unfolding digits_def by (rule take_is_prefix)
  show "length digits < 8 \<longrightarrow> digits = filter is_digit date"
    by (simp add: digits_def)
qed

text \<open>
  C2. The identifier computed in \<open>save_case\<close> and the one of the Bombay High Court
  scraper are the key of the specification, \<open>{court_prefix}_{title_tokens}_{date_digits}\<close>.
  The title tokens are at most three, each non-empty and made of the characters
  \<open>a\<close> to \<open>z\<close> and \<open>0\<close> to \<open>9\<close> only; read one after the other they are the
  beginning of the lowercased alphanumeric characters of the title, and all of them when
  the title has fewer than three tokens. The date digits are at most eight characters
  \<open>0\<close> to \<open>9\<close>, the beginning of the digits of the date, and all of them when the date
  has fewer than eight. (The source lowercases after joining, the specification before;
  the two agree.) For the Supreme Court, whose prefix is \<open>sc\<close>, the title
  \<open>Arnesh Kumar vs State of Bihar\<close> and the date \<open>2014-07-02\<close> the key is
  \<open>sc_arnesh_kumar_vs_20140702\<close>. The further instances have punctuation to strip, more
  than three tokens, more than eight digits, capital letters, tabs and line breaks between
  the tokens, fewer than three tokens, fewer than eight digits, and a title and a date
  of which nothing is left.
\<close>

theorem judgment_id_follows_make_key:
  "save_case_judgment_id court title date = make_key (court_prefix court) title date
   \<and> bhc_generate_judgment_id title date = make_key ''bhc'' title date
   \<and> court_prefix ''Supreme Court of India'' = ''sc''
   \<and> make_key ''sc'' ''Arnesh Kumar vs State of Bihar'' ''2014-07-02'' = ''sc_arnesh_kumar_vs_20140702''
   \<and> save_case_judgment_id ''Supreme Court of India'' ''Arnesh Kumar vs State of Bihar'' ''2014-07-02''
       = ''sc_arnesh_kumar_vs_20140702''
   \<and> (\<exists>tokens digits.
         save_case_judgment_id court title date
           = court_prefix court @ ''_'' @ join ''_'' tokens @ ''_'' @ digits
       \<and> bhc_generate_judgment_id title date = ''bhc_'' @ join ''_'' tokens @ ''_'' @ digits
       \<and> length tokens \<le> 3
       \<and> (\<forall>w \<in> set tokens. w \<noteq> []
             \<and> (\<forall>c \<in> set w. c \<in> set ''abcdefghijklmnopqrstuvwxyz0123456789''))
       \<and> prefix (concat tokens) (lower (filter is_alnum title))
       \<and> (length tokens < 3 \<longrightarrow> concat tokens = lower (filter is_alnum title))
       \<and> length digits \<le> 8
       \<and> (\<forall>c \<in> set digits. c \<in> set ''0123456789'')
       \<and> prefix digits (filter is_digit date)
       \<and> (length digits < 8 \<longrightarrow> digits = filter is_digit date))
   \<and> (is_alnum x \<longleftrightarrow>
         x \<in> set ''abcdefghijklmnopqrstuvwxyzABCDEFGHIJKLMNOPQRSTUVWXYZ0123456789'')
   \<and> save_case_judgment_id ''Delhi High Court'' ''M/s. A-One (India) Ltd. v. State & Ors.''
       ''Dated: 12-03-2019 at 10:30'' = ''dhc_ms_aone_india_12032019''
   \<and> bhc_generate_judgment_id ''  Re: X!'' ''7/2014'' = ''bhc_re_x_72014''
   \<and> save_case_judgment_id ''Madras High Court''
        (''State'' @ [CHR 0x09] @ ''of'' @ [CHR 0x0A] @ ''T.N. vs'') [] = ''court_state_of_tn_''
   \<and> make_key ''sc'' ''!!!'' ''no date'' = ''sc__''"
proof -
  let ?tokens = "map lower (take 3 (py_split (filter (\<lambda>c. is_alnum c \<or> is_space c) title)))"
  let ?digits = "take 8 (filter is_digit date)"
  have k1: "save_case_judgment_id court title date = make_key (court_prefix court) title date"
    by (simp add: save_case_judgment_id_def make_key_def lower_join_underscore)
  have k2: "bhc_generate_judgment_id title date = make_key ''bhc'' title date"
    by (simp add: bhc_generate_judgment_id_def make_key_def lower_join_underscore)
  have k3: "court_prefix ''Supreme Court of India'' = ''sc''"
    by (simp add: court_prefix_def)
  have k4: "make_key ''sc'' ''Arnesh Kumar vs State of Bihar'' ''2014-07-02'' = ''sc_arnesh_kumar_vs_20140702''"
    by code_simp
  have t2: "\<forall>w \<in> set ?tokens. w \<noteq> []
             \<and> (\<forall>c \<in> set w. c \<in> set ''abcdefghijklmnopqrstuvwxyz0123456789'')"
  proof (intro ballI conjI)
    fix w assume w: "w \<in> set ?tokens"
    with title_tokens_facts(2) [of title] show "w \<noteq> []" by blast
    fix c assume "c \<in> set w"
    with w title_tokens_facts(2) [of title] have "is_lower c \<or> is_digit c" by blast
    then have "c \<in> set ''abcdefghijklmnopqrstuvwxyz'' \<or> c \<in> set ''0123456789''"
      by (simp only: lower_chars digit_chars)
    then show "c \<in> set ''abcdefghijklmnopqrstuvwxyz0123456789''" by auto
  qed
  have e: "save_case_judgment_id court title date
             = court_prefix court @ ''_'' @ join ''_'' ?tokens @ ''_'' @ ?digits
           \<and> bhc_generate_judgment_id title date = ''bhc_'' @ join ''_'' ?tokens @ ''_'' @ ?digits"
    by (simp add: save_case_judgment_id_def bhc_generate_judgment_id_def lower_join_underscore)
  have ex: "\<exists>tokens digits.
         save_case_judgment_id court title date
           = court_prefix court @ ''_'' @ join ''_'' tokens @ ''_'' @ digits
       \<and> bhc_generate_judgment_id title date = ''bhc_'' @ join ''_'' tokens @ ''_'' @ digits
       \<and> length tokens \<le> 3
       \<and> (\<forall>w \<in> set tokens. w \<noteq> []
             \<and> (\<forall>c \<in> set w. c \<in> set ''abcdefghijklmnopqrstuvwxyz0123456789''))
       \<and> prefix (concat tokens) (lower (filter is_alnum title))
       \<and> (length tokens < 3 \<longrightarrow> concat tokens = lower (filter is_alnum title))
       \<and> length digits \<le> 8
       \<and> (\<forall>c \<in> set digits. c \<in> set ''0123456789'')
       \<and> prefix digits (filter is_digit date)
       \<and> (length digits < 8 \<longrightarrow> digits = filter is_digit date)"
    using e t2 title_tokens_facts(1,3,4) [of title] date_digits_facts [of date]
    by (intro exI [of _ ?tokens] exI [of _ ?digits] conjI) blast+
  have al: "is_alnum x \<longleftrightarrow>
         x \<in> set ''abcdefghijklmnopqrstuvwxyzABCDEFGHIJKLMNOPQRSTUVWXYZ0123456789''"
    unfolding is_alnum_def lower_chars upper_chars digit_chars by auto
  from k1 k2 k3 k4 example_key ex al example_key_stripped show ?thesis
    by (intro conjI) blast+
qed

theorem judgment_id_follows_make_key_witness:
  "save_case_judgment_id ''Delhi High Court'' ''M/s. A-One (India) Ltd. v. State & Ors.''
       ''Dated: 12-03-2019 at 10:30''
     = make_key (court_prefix ''Delhi High Court'') ''M/s. A-One (India) Ltd. v. State & Ors.''
         ''Dated: 12-03-2019 at 10:30''
   \<and> make_key (court_prefix ''Delhi High Court'') ''M/s. A-One (India) Ltd. v. State & Ors.''
         ''Dated: 12-03-2019 at 10:30'' = ''dhc_ms_aone_india_12032019''
   \<and> is_alnum CHR ''A'' \<and> \<not> is_alnum CHR ''/''"
proof -
  note t = judgment_id_follows_make_key
    [of "''Delhi High Court''" "''M/s. A-One (India) Ltd. v. State & Ors.''"
        "''Dated: 12-03-2019 at 10:30''"]
  from t have a: "save_case_judgment_id ''Delhi High Court'' ''M/s. A-One (India) Ltd. v. State & Ors.''
       ''Dated: 12-03-2019 at 10:30''
     = make_key (court_prefix ''Delhi High Court'') ''M/s. A-One (India) Ltd. v. State & Ors.''
         ''Dated: 12-03-2019 at 10:30''"
    by (rule conjunct1)
  from t have b: "save_case_judgment_id ''Delhi High Court'' ''M/s. A-One (India) Ltd. v. State & Ors.''
       ''Dated: 12-03-2019 at 10:30'' = ''dhc_ms_aone_india_12032019''"
    by blast
  have c: "is_alnum CHR ''A''"
    using judgment_id_follows_make_key [of _ _ _ "CHR ''A''"] by simp
  have d: "\<not> is_alnum CHR ''/''"
    using judgment_id_follows_make_key [of _ _ _ "CHR ''/''"] by simp
  from a b c d show ?thesis by (simp only:) simp
qed

text \<open>
  C10. For every court, title and date, the identifier computed in \<open>save_case\<close> and
  the one computed by \<open>generate_judgment_id\<close> of the Bombay High Court scraper have the
  same title tokens and the same date digits: they are equal once the court prefix is
  removed, and equal outright when the court is the Bombay High Court.
\<close>

theorem save_case_and_bhc_ids_agree:
  "drop (length (court_prefix court)) (save_case_judgment_id court title date)
     = drop (length ''bhc'') (bhc_generate_judgment_id title date)
   \<and> save_case_judgment_id ''Bombay High Court'' title date = bhc_generate_judgment_id title date
   \<and> (\<exists>title_tokens date_digits.
         save_case_judgment_id court title date
           = court_prefix court @ ''_'' @ title_tokens @ ''_'' @ date_digits
       \<and> bhc_generate_judgment_id title date
           = ''bhc'' @ ''_'' @ title_tokens @ ''_'' @ date_digits)"
proof (intro conjI)
  show "drop (length (court_prefix court)) (save_case_judgment_id court title date)
     = drop (length ''bhc'') (bhc_generate_judgment_id title date)"
    by (simp add: save_case_judgment_id_def bhc_generate_judgment_id_def Let_def)
  show "save_case_judgment_id ''Bombay High Court'' title date = bhc_generate_judgment_id title date"
    by (simp add: save_case_judgment_id_def bhc_generate_judgment_id_def court_prefix_def Let_def)
  show "\<exists>title_tokens date_digits.
         save_case_judgment_id court title date
           = court_prefix court @ ''_'' @ title_tokens @ ''_'' @ date_digits
       \<and> bhc_generate_judgment_id title date
           = ''bhc'' @ ''_'' @ title_tokens @ ''_'' @ date_digits"
    unfolding save_case_judgment_id_def bhc_generate_judgment_id_def Let_def
    by (intro exI conjI) (rule refl, simp)
qed

lemma save_case_inserted:
  assumes "fst (save_case w c t d js pdf txt cit src)"
  shows "\<exists>doc. stored (snd (save_case w c t d js pdf txt cit src)) = stored w @ [doc]
           \<and> doc_id doc = save_case_judgment_id c t d \<and> doc_scraped_at doc = now w"
  using assms by (simp add: save_case_def Let_def split: if_splits)

lemma list_ex_doc_id:
  "list_ex (\<lambda>x. doc_id x = k) xs = (k \<in> doc_id ` set xs)"
  by (induction xs) auto

lemma save_case_decision:
  "fst (save_case w c t d js pdf txt cit src)
     = (reachable w \<and> save_case_judgment_id c t d \<notin> doc_id ` set (stored w))"
  by (simp add: save_case_def Let_def list_ex_doc_id)

text \<open>
  C3. The key is a function of court, title and date alone. \<open>save_case\<close> reads the
  clock and the stored collection, and the document it stores carries the time of the
  call, but its identifier does not depend on them: two calls with the same court, title
  and date, in any two worlds (any clock, any collection, any other arguments), that both
  store a document, store it under the same identifier, which is the key of the three
  arguments; and the only thing the world decides is whether that key is already
  present. \<open>generate_judgment_id\<close> of the Supreme Court scraper is likewise a
  function of the title and the date alone: the lowercased title with every
  non-alphanumeric character replaced by \<open>_\<close>, runs of \<open>_\<close> squeezed, cut at 50
  characters, and all the digits of the date.
\<close>

theorem save_case_key_independent_of_world:
  assumes "fst (save_case w1 c t d js1 pdf1 txt1 cit1 src1)"
      and "fst (save_case w2 c t d js2 pdf2 txt2 cit2 src2)"
  shows "doc_id (last (stored (snd (save_case w1 c t d js1 pdf1 txt1 cit1 src1))))
           = doc_id (last (stored (snd (save_case w2 c t d js2 pdf2 txt2 cit2 src2))))
       \<and> doc_id (last (stored (snd (save_case w1 c t d js1 pdf1 txt1 cit1 src1))))
           = save_case_judgment_id c t d
       \<and> doc_scraped_at (last (stored (snd (save_case w1 c t d js1 pdf1 txt1 cit1 src1)))) = now w1
       \<and> save_case_judgment_id c t d \<notin> doc_id ` set (stored w1)
       \<and> sc_generate_judgment_id t d
           = ''sc_'' @ take 50 (squeeze_underscores
               (map (\<lambda>x. if is_alnum x then x else CHR ''_'') (lower t))) @ ''_'' @ filter is_digit d"
proof -
  from save_case_inserted [OF assms(1)] obtain d1 where
    d1: "stored (snd (save_case w1 c t d js1 pdf1 txt1 cit1 src1)) = stored w1 @ [d1]"
        "doc_id d1 = save_case_judgment_id c t d" "doc_scraped_at d1 = now w1"
    by blast
  from save_case_inserted [OF assms(2)] obtain d2 where
    d2: "stored (snd (save_case w2 c t d js2 pdf2 txt2 cit2 src2)) = stored w2 @ [d2]"
        "doc_id d2 = save_case_judgment_id c t d"
    by blast
  from assms(1) have "save_case_judgment_id c t d \<notin> doc_id ` set (stored w1)"
    by (simp add: save_case_decision)
  moreover have "sc_generate_judgment_id t d
           = ''sc_'' @ take 50 (squeeze_underscores
               (map (\<lambda>x. if is_alnum x then x else CHR ''_'') (lower t))) @ ''_'' @ filter is_digit d"
    by (simp add: sc_generate_judgment_id_def)
  ultimately show ?thesis using d1 d2 by simp
qed


theorem save_case_key_independent_of_world_witness:
  "fst (save_case \<lparr>stored = [], reachable = True, now = ''2024-01-05T10:00:00''\<rparr>
          ''Supreme Court of India'' ''Arnesh Kumar vs State of Bihar'' ''2014-07-02''
          [''Justice Prasad''] ''a.pdf'' ''Held.'' None None)
   \<and> fst (save_case \<lparr>stored = [], reachable = True, now = ''2025-06-30T23:59:59''\<rparr>
          ''Supreme Court of India'' ''Arnesh Kumar vs State of Bihar'' ''2014-07-02''
          [] ''b.pdf'' ''Other text.'' (Some ''(2014) 8 SCC 273'') None)
   \<and> doc_id (last (stored (snd (save_case \<lparr>stored = [], reachable = True, now = ''2024-01-05T10:00:00''\<rparr>
          ''Supreme Court of India'' ''Arnesh Kumar vs State of Bihar'' ''2014-07-02''
          [''Justice Prasad''] ''a.pdf'' ''Held.'' None None))))
       = doc_id (last (stored (snd (save_case \<lparr>stored = [], reachable = True, now = ''2025-06-30T23:59:59''\<rparr>
          ''Supreme Court of India'' ''Arnesh Kumar vs State of Bihar'' ''2014-07-02''
          [] ''b.pdf'' ''Other text.'' (Some ''(2014) 8 SCC 273'') None))))"
proof -
  have h1: "fst (save_case \<lparr>stored = [], reachable = True, now = ''2024-01-05T10:00:00''\<rparr>
          ''Supreme Court of India'' ''Arnesh Kumar vs State of Bihar'' ''2014-07-02''
          [''Justice Prasad''] ''a.pdf'' ''Held.'' None None)"
    by (simp add: save_case_decision)
  have h2: "fst (save_case \<lparr>stored = [], reachable = True, now = ''2025-06-30T23:59:59''\<rparr>
          ''Supreme Court of India'' ''Arnesh Kumar vs State of Bihar'' ''2014-07-02''
          [] ''b.pdf'' ''Other text.'' (Some ''(2014) 8 SCC 273'') None)"
    by (simp add: save_case_decision)
  note r = save_case_key_independent_of_world [OF h1 h2, THEN conjunct1]
  from h1 h2 r show ?thesis by (intro conjI)
qed


section \<open>Facts about the example inputs\<close>

lemma strip_id: "s \<noteq> [] \<Longrightarrow> \<not> is_space (hd s) \<Longrightarrow> \<not> is_space (last s) \<Longrightarrow> strip s = s"
proof -
  assume a: "s \<noteq> []" "\<not> is_space (hd s)" "\<not> is_space (last s)"
  then have "dropWhile is_space s = s" by (cases s) auto
  moreover from a have "dropWhile is_space (rev s) = rev s"
    by (cases "rev s") (auto simp: last_rev hd_rev)
  ultimately show ?thesis by (simp add: strip_def)
qed

lemma re_split_terminal_run:
  "is_terminal d \<Longrightarrow> \<forall>c \<in> set ds. is_terminal c \<Longrightarrow> re_split_terminal (d # ds) = [[], []]"
  by (induction ds arbitrary: d) (simp_all add: starts_terminal_def)

lemma re_split_terminal_sentence:
  assumes "\<forall>c \<in> set s. \<not> is_terminal c" and "is_terminal d" and "\<forall>c \<in> set ds. is_terminal c"
  shows "re_split_terminal (s @ d # ds) = [s, []]"
  using assms(1)
proof (induction s)
  case Nil
  from assms(2,3) show ?case by (simp add: re_split_terminal_run del: re_split_terminal.simps)
next
  case (Cons c s)
  then show ?case by simp
qed

lemma segment_sentence:
  assumes "\<forall>c \<in> set s. \<not> is_terminal c" and "is_terminal d" and "\<forall>c \<in> set ds. is_terminal c"
    and "strip s = s" and "k < length s"
  shows "segment k (s @ d # ds) = [s]"
proof -
  have "strip [] = []" by (simp add: strip_def)
  with assms(4,5) re_split_terminal_sentence [OF assms(1,2,3)] show ?thesis
    by (simp add: segment_def)
qed

lemma one_sentence_no_terminal: "\<forall>c \<in> set one_sentence. \<not> is_terminal c"
  by (simp add: one_sentence_def is_terminal_def)

lemma strip_one_sentence: "strip one_sentence = one_sentence"
  by (rule strip_id) (simp_all add: one_sentence_def is_space_def)

lemma length_one_sentence: "length one_sentence = 275"
  by (simp add: one_sentence_def)

lemma segment_one_sentence_text: "k < 275 \<Longrightarrow> segment k one_sentence_text = [one_sentence]"
  unfolding one_sentence_text_def
  using one_sentence_no_terminal strip_one_sentence
  by (simp add: segment_sentence is_terminal_def length_one_sentence)

lemma segment_one_sentence_period: "k < 275 \<Longrightarrow> segment k one_sentence_period = [one_sentence]"
  unfolding one_sentence_period_def
  using one_sentence_no_terminal strip_one_sentence
  by (simp add: segment_sentence is_terminal_def length_one_sentence)

lemma strip_one_sentence_period: "strip one_sentence_period = one_sentence_period"
  by (rule strip_id) (simp_all add: one_sentence_period_def one_sentence_def is_space_def)


lemma last_one_sentence: "last one_sentence \<noteq> CHR ''.''"
  by (simp add: one_sentence_def)

section \<open>Properties of the statistical ranker\<close>

lemma extract_summary_sumy_returns: "\<exists>ss. extract_summary_sumy lib t n method = Inr ss"
  by (simp add: extract_summary_sumy_def split: sum.splits)

lemma strip_one_sentence_text: "strip one_sentence_text = one_sentence_text"
  by (rule strip_id) (simp_all add: one_sentence_text_def one_sentence_def is_space_def)

lemma length_one_sentence_text: "length one_sentence_text = 278"
  by (simp add: one_sentence_text_def one_sentence_def)

lemma one_sentence_text_long: "one_sentence_text \<noteq> [] \<and> \<not> length (strip one_sentence_text) < 200"
  by (simp add: strip_one_sentence_text length_one_sentence_text) (simp add: one_sentence_text_def)

lemma sumy_try_whole_text:
  "sumy_try whole_text_sumy one_sentence_text n method = Inr (py_take n [one_sentence_text])"
  using one_sentence_text_long
  by (simp add: sumy_try_def whole_text_sumy_def strip_one_sentence_text)

lemma sumy_try_failing:
  "sumy_try failing_sumy one_sentence_text n method = Inl (Exn ''SVD did not converge'')"
  using one_sentence_text_long
  by (simp add: sumy_try_def failing_sumy_def)

text \<open>
  C4. \<open>extract_summary_sumy\<close> always returns a list and never raises: whenever the
  body of its \<open>try\<close> block raises, be it in the parser or in the summarizer, the
  exception is caught there and the result is the empty list.
\<close>

theorem extract_summary_sumy_catches:
  "(\<exists>ss. extract_summary_sumy lib t n method = Inr ss)
   \<and> (\<forall>e. sumy_try lib t n method = Inl e \<longrightarrow> extract_summary_sumy lib t n method = Inr [])
   \<and> (\<forall>e. t \<noteq> [] \<and> 200 \<le> length (strip t) \<and> from_string lib t = Inl e
          \<longrightarrow> extract_summary_sumy lib t n method = Inr [])
   \<and> (\<forall>e document. t \<noteq> [] \<and> 200 \<le> length (strip t) \<and> from_string lib t = Inr document
          \<and> summarize lib (choose_summarizer method) document n = Inl e
          \<longrightarrow> extract_summary_sumy lib t n method = Inr [])"
  by (auto simp: extract_summary_sumy_def sumy_try_def split: sum.splits)

theorem extract_summary_sumy_catches_witness:
  "sumy_try failing_sumy one_sentence_text 4 ''lsa'' = Inl (Exn ''SVD did not converge'')
   \<and> extract_summary_sumy failing_sumy one_sentence_text 4 ''lsa'' = Inr []"
proof -
  have h: "sumy_try failing_sumy one_sentence_text 4 ''lsa'' = Inl (Exn ''SVD did not converge'')"
    by (rule sumy_try_failing)
  from extract_summary_sumy_catches [of failing_sumy one_sentence_text 4 "''lsa''"]
  have "\<forall>e. sumy_try failing_sumy one_sentence_text 4 ''lsa'' = Inl e
          \<longrightarrow> extract_summary_sumy failing_sumy one_sentence_text 4 ''lsa'' = Inr []"
    by (rule conjunct2 [THEN conjunct1])
  with h show ?thesis by blast
qed

text \<open>
  C5 (as the claim states it, refuted). With a library that answers, the ranker called
  with the unknown method \<open>bogus\<close> returns a summary, and called with the negative
  length \<open>-1\<close> it returns the empty list; neither call fails. The command line
  accepts \<open>--max_sentences -1\<close>, and the run prints a summary.
\<close>

theorem unknown_method_rejected_counterexample:
  "extract_summary_sumy whole_text_sumy one_sentence_text 4 ''bogus'' = Inr [one_sentence_text]
   \<and> extract_summary_sumy whole_text_sumy one_sentence_text (- 1) ''lsa'' = Inr []
   \<and> parse_args \<lparr> arg_text = Some one_sentence_text, arg_title = [], arg_method = ''lsa'',
                  arg_max_sentences = Some (- 1), arg_output = ''json'', arg_unrecognized = [] \<rparr>
       = Inr \<lparr> ns_text = one_sentence_text, ns_title = [], ns_method = ''lsa'',
                ns_max_sentences = - 1, ns_output = ''json'' \<rparr>
   \<and> main whole_text_sumy
         \<lparr> arg_text = Some one_sentence_text, arg_title = [], arg_method = ''lsa'',
           arg_max_sentences = Some (- 1), arg_output = ''json'', arg_unrecognized = [] \<rparr>
       = Summary ''.''"
proof -
  have a: "extract_summary_sumy whole_text_sumy one_sentence_text 4 ''bogus'' = Inr [one_sentence_text]"
    by (simp add: extract_summary_sumy_def sumy_try_whole_text py_take_def)
  have b: "extract_summary_sumy whole_text_sumy one_sentence_text (- 1) ''lsa'' = Inr []"
    by (simp add: extract_summary_sumy_def sumy_try_whole_text py_take_def)
  have c: "parse_args \<lparr> arg_text = Some one_sentence_text, arg_title = [], arg_method = ''lsa'',
                  arg_max_sentences = Some (- 1), arg_output = ''json'', arg_unrecognized = [] \<rparr>
       = Inr \<lparr> ns_text = one_sentence_text, ns_title = [], ns_method = ''lsa'',
                ns_max_sentences = - 1, ns_output = ''json'' \<rparr>"
    by (simp add: parse_args_def method_choices_def output_choices_def)
  have f: "finish_summary [] = ''.''"
    by (simp add: finish_summary_def endswith_def)
  have i: "init_error whole_text_sumy = None"
    by (simp add: whole_text_sumy_def)
  have n: "length one_sentence_text \<noteq> 0"
    by (simp add: length_one_sentence_text)
  have d: "main whole_text_sumy
         \<lparr> arg_text = Some one_sentence_text, arg_title = [], arg_method = ''lsa'',
           arg_max_sentences = Some (- 1), arg_output = ''json'', arg_unrecognized = [] \<rparr>
       = Summary ''.''"
    using n by (simp add: main_def c i main_summary_def b f)
  from a b c d show ?thesis by (intro conjI)
qed

text \<open>
  C5 (amended). The ranker itself rejects nothing: a method other than \<open>lsa\<close>,
  \<open>lexrank\<close> and \<open>textrank\<close> is treated as \<open>lsa\<close>, and for every method and every
  length, negative ones included, it returns a list. An unknown method is rejected only
  by the command line: \<open>main\<close> ends with a usage error exactly when \<open>--text\<close> is
  absent, \<open>--method\<close> is not one of \<open>hybrid\<close>, \<open>regex\<close>, \<open>lsa\<close>, \<open>lexrank\<close>,
  \<open>textrank\<close>, \<open>--max_sentences\<close> is not an integer, \<open>--output\<close> is not one of
  \<open>json\<close>, \<open>text\<close>, or an argument is not recognised. It accepts every integer for
  \<open>--max_sentences\<close>: with the other arguments in order the parse succeeds with that
  integer, and with a non-empty text and a summarizer that constructs, the run prints a
  summary.
\<close>

theorem unknown_method_falls_back_to_lsa:
  "(method \<notin> set [''lsa'', ''lexrank'', ''textrank'']
      \<longrightarrow> extract_summary_sumy lib t n method = extract_summary_sumy lib t n ''lsa'')
   \<and> (\<exists>ss. extract_summary_sumy lib t n method = Inr ss)
   \<and> (main lib a = UsageError \<longleftrightarrow>
         arg_text a = None \<or> arg_method a \<notin> set method_choices \<or> arg_max_sentences a = None
         \<or> arg_output a \<notin> set output_choices \<or> arg_unrecognized a \<noteq> [])
   \<and> (method \<in> set method_choices \<and> output \<in> set output_choices
        \<longrightarrow> parse_args \<lparr> arg_text = Some t, arg_title = title, arg_method = method,
                          arg_max_sentences = Some n, arg_output = output, arg_unrecognized = [] \<rparr>
            = Inr \<lparr> ns_text = t, ns_title = title, ns_method = method,
                     ns_max_sentences = n, ns_output = output \<rparr>)
   \<and> (method \<in> set method_choices \<and> output \<in> set output_choices \<and> t \<noteq> []
        \<and> init_error lib = None
        \<longrightarrow> (\<exists>summary. main lib \<lparr> arg_text = Some t, arg_title = title, arg_method = method,
                          arg_max_sentences = Some n, arg_output = output, arg_unrecognized = [] \<rparr>
               = Summary summary))"
proof (intro conjI)
  show "method \<notin> set [''lsa'', ''lexrank'', ''textrank'']
      \<longrightarrow> extract_summary_sumy lib t n method = extract_summary_sumy lib t n ''lsa''"
  proof
    assume "method \<notin> set [''lsa'', ''lexrank'', ''textrank'']"
    then have k: "choose_summarizer method = LsaSummarizer"
      by (simp add: choose_summarizer_def)
    have k': "choose_summarizer ''lsa'' = LsaSummarizer"
      by (simp add: choose_summarizer_def)
    show "extract_summary_sumy lib t n method = extract_summary_sumy lib t n ''lsa''"
      unfolding extract_summary_sumy_def sumy_try_def k k' by (rule refl)
  qed
  show "\<exists>ss. extract_summary_sumy lib t n method = Inr ss"
    by (simp add: extract_summary_sumy_def split: sum.splits)
  show "main lib a = UsageError \<longleftrightarrow>
         arg_text a = None \<or> arg_method a \<notin> set method_choices \<or> arg_max_sentences a = None
         \<or> arg_output a \<notin> set output_choices \<or> arg_unrecognized a \<noteq> []"
    by (auto simp: main_def parse_args_def split: option.splits sum.splits)
  show "method \<in> set method_choices \<and> output \<in> set output_choices
        \<longrightarrow> parse_args \<lparr> arg_text = Some t, arg_title = title, arg_method = method,
                          arg_max_sentences = Some n, arg_output = output, arg_unrecognized = [] \<rparr>
            = Inr \<lparr> ns_text = t, ns_title = title, ns_method = method,
                     ns_max_sentences = n, ns_output = output \<rparr>"
    by (simp add: parse_args_def)
  show "method \<in> set method_choices \<and> output \<in> set output_choices \<and> t \<noteq> []
        \<and> init_error lib = None
        \<longrightarrow> (\<exists>summary. main lib \<lparr> arg_text = Some t, arg_title = title, arg_method = method,
                          arg_max_sentences = Some n, arg_output = output, arg_unrecognized = [] \<rparr>
               = Summary summary)"
  proof
    assume h: "method \<in> set method_choices \<and> output \<in> set output_choices \<and> t \<noteq> []
        \<and> init_error lib = None"
    let ?args = "\<lparr> ns_text = t, ns_title = title, ns_method = method,
                     ns_max_sentences = n, ns_output = output \<rparr>"
    have p: "parse_args \<lparr> arg_text = Some t, arg_title = title, arg_method = method,
                          arg_max_sentences = Some n, arg_output = output, arg_unrecognized = [] \<rparr>
            = Inr ?args"
      using h by (simp add: parse_args_def)
    obtain ss where ss: "extract_summary_sumy lib t n method = Inr ss"
      using extract_summary_sumy_returns by blast
    obtain cs where cs: "extract_case_summary lib t (Some title) n = Inr cs"
      by (cases "case_summary_try lib t (Some title) n") (simp_all add: extract_case_summary_def)
    have "main_summary lib ?args
            = (if method = ''regex'' then Inr (finish_summary (extract_key_sentences_regex t n))
               else if method \<in> set [''lsa'', ''lexrank'', ''textrank'']
                    then Inr (finish_summary ss) else Inr cs)"
      by (simp add: main_summary_def ss cs)
    then obtain summary where "main_summary lib ?args = Inr summary"
      by (cases "method = ''regex''"; cases "method \<in> set [''lsa'', ''lexrank'', ''textrank'']")
         simp_all
    with h p show "\<exists>summary. main lib \<lparr> arg_text = Some t, arg_title = title, arg_method = method,
                          arg_max_sentences = Some n, arg_output = output, arg_unrecognized = [] \<rparr>
               = Summary summary"
      by (simp add: main_def)
  qed
qed

theorem unknown_method_falls_back_to_lsa_witness:
  "''bogus'' \<notin> set [''lsa'', ''lexrank'', ''textrank'']
   \<and> extract_summary_sumy whole_text_sumy one_sentence_text 4 ''bogus''
       = extract_summary_sumy whole_text_sumy one_sentence_text 4 ''lsa''
   \<and> main whole_text_sumy
         \<lparr> arg_text = Some one_sentence_text, arg_title = [], arg_method = ''bogus'',
           arg_max_sentences = Some 4, arg_output = ''json'', arg_unrecognized = [] \<rparr> = UsageError
   \<and> ''lsa'' \<in> set method_choices \<and> ''json'' \<in> set output_choices
   \<and> parse_args \<lparr> arg_text = Some one_sentence_text, arg_title = [], arg_method = ''lsa'',
                  arg_max_sentences = Some (- 1), arg_output = ''json'', arg_unrecognized = [] \<rparr>
       = Inr \<lparr> ns_text = one_sentence_text, ns_title = [], ns_method = ''lsa'',
                ns_max_sentences = - 1, ns_output = ''json'' \<rparr>"
proof -
  have h1: "''bogus'' \<notin> set [''lsa'', ''lexrank'', ''textrank'']" by simp
  have h2: "''bogus'' \<notin> set method_choices" by (simp add: method_choices_def)
  have h3: "''lsa'' \<in> set method_choices" by (simp add: method_choices_def)
  have h4: "''json'' \<in> set output_choices" by (simp add: output_choices_def)
  note a = unknown_method_falls_back_to_lsa
    [of "''bogus''" whole_text_sumy one_sentence_text 4
        "\<lparr> arg_text = Some one_sentence_text, arg_title = [], arg_method = ''bogus'',
           arg_max_sentences = Some 4, arg_output = ''json'', arg_unrecognized = [] \<rparr>"]
  note b = unknown_method_falls_back_to_lsa
    [of "''lsa''" whole_text_sumy one_sentence_text "- 1" _ "''json''" "[]"]
  from a h1 have c1: "extract_summary_sumy whole_text_sumy one_sentence_text 4 ''bogus''
       = extract_summary_sumy whole_text_sumy one_sentence_text 4 ''lsa''"
    by blast
  from a h2 have c2: "main whole_text_sumy
         \<lparr> arg_text = Some one_sentence_text, arg_title = [], arg_method = ''bogus'',
           arg_max_sentences = Some 4, arg_output = ''json'', arg_unrecognized = [] \<rparr> = UsageError"
    by simp
  from b h3 h4 have c3: "parse_args \<lparr> arg_text = Some one_sentence_text, arg_title = [], arg_method = ''lsa'',
                  arg_max_sentences = Some (- 1), arg_output = ''json'', arg_unrecognized = [] \<rparr>
       = Inr \<lparr> ns_text = one_sentence_text, ns_title = [], ns_method = ''lsa'',
                ns_max_sentences = - 1, ns_output = ''json'' \<rparr>"
    by blast
  from h1 c1 c2 h3 h4 c3 show ?thesis by (intro conjI)
qed

section \<open>Properties of the summary composer\<close>

lemma endswith_dot_iff: "endswith s ''.'' \<longleftrightarrow> s \<noteq> [] \<and> last s = CHR ''.''"
  unfolding endswith_def suffix_def
  by (metis append_butlast_last_id last_snoc snoc_eq_iff_butlast)

lemma endswith_dots_iff:
  "endswith s ''..'' \<longleftrightarrow> s \<noteq> [] \<and> last s = CHR ''.'' \<and> endswith (butlast s) ''.''"
proof
  assume "endswith s ''..''"
  then obtain p where "s = p @ ''..''" by (auto simp: endswith_def suffix_def)
  then have "s = (p @ ''.'') @ ''.''" by simp
  then show "s \<noteq> [] \<and> last s = CHR ''.'' \<and> endswith (butlast s) ''.''"
    by (simp add: endswith_dot_iff butlast_append)
next
  assume a: "s \<noteq> [] \<and> last s = CHR ''.'' \<and> endswith (butlast s) ''.''"
  then obtain q where "butlast s = q @ ''.''" by (auto simp: endswith_def suffix_def)
  with a have "s = q @ ''..''"
    by (metis append.assoc append_Cons append_Nil append_butlast_last_id)
  then show "endswith s ''..''" by (simp add: endswith_def suffix_def)
qed

lemma endswith_dots_mem: "endswith s ''..'' \<Longrightarrow> CHR ''.'' \<in> set s"
  using last_in_set [of s] by (auto simp: endswith_dots_iff)

lemma endswith_dots_append:
  "ys \<noteq> [] \<Longrightarrow> endswith (xs @ ys) ''..'' \<Longrightarrow> endswith ys ''..'' \<or> (ys = ''.'' \<and> endswith xs ''.'')"
  by (cases ys rule: rev_cases)
     (auto simp: endswith_dots_iff endswith_dot_iff butlast_append last_append split: if_splits)

lemma join_nonempty_last:
  "ss \<noteq> [] \<Longrightarrow> endswith (join ''. '' ss) ''..'' \<Longrightarrow> endswith (last ss) ''..''"
proof (induction "''. ''" ss rule: join.induct)
  case 1
  then show ?case by simp
next
  case (2 x)
  then show ?case by simp
next
  case (3 x y ys)
  let ?J = "join ''. '' (y # ys)"
  from "3.prems" have e: "endswith ((x @ ''. '') @ ?J) ''..''" by simp
  show ?case
  proof (cases "?J = []")
    case True
    with e have "endswith (x @ ''. '') ''..''" by simp
    then show ?thesis by (simp add: endswith_dots_iff)
  next
    case False
    from endswith_dots_append [OF False e]
    have "endswith ?J ''..''" by (auto simp: endswith_dot_iff)
    with 3 show ?thesis by simp
  qed
qed

lemma finish_single_period:
  assumes "\<not> endswith joined ''..''"
  shows "single_terminal_period (if \<not> endswith joined ''.'' then joined @ ''.'' else joined)"
  using assms
  by (auto simp: single_terminal_period_def endswith_dots_iff endswith_dot_iff)

lemma single_terminal_period_title:
  assumes "single_terminal_period s"
  shows "single_terminal_period (title @ '': '' @ s)"
proof -
  from assms have s: "s \<noteq> []" "last s = CHR ''.''" "\<not> endswith s ''..''"
    by (auto simp: single_terminal_period_def endswith_dot_iff)
  have "endswith ((title @ '': '') @ s) ''.''" using s by (simp add: endswith_dot_iff)
  moreover have "\<not> endswith ((title @ '': '') @ s) ''..''"
  proof
    assume "endswith ((title @ '': '') @ s) ''..''"
    from endswith_dots_append [OF s(1) this] s(3)
    show False by (auto simp: endswith_dot_iff)
  qed
  ultimately show ?thesis by (simp add: single_terminal_period_def)
qed


lemma set_py_take: "set (py_take n xs) \<subseteq> set xs"
  by (simp add: py_take_def set_take_subset)

lemma regex_sentences_subset: "set (extract_key_sentences_regex t n) \<subseteq> set (segment 20 t)"
proof (cases "t = [] \<or> length (strip t) < 100")
  case True
  then show ?thesis by (simp add: extract_key_sentences_regex_def)
next
  case False
  let ?scored = "map (\<lambda>sentence. (sentence, score sentence)) (segment 20 t)"
  have "set (extract_key_sentences_regex t n) = fst ` set (py_take n (sort_by_score_desc ?scored))"
    using False by (simp add: extract_key_sentences_regex_def)
  also have "\<dots> \<subseteq> fst ` set (sort_by_score_desc ?scored)"
    using set_py_take by (rule image_mono)
  also have "\<dots> = set (segment 20 t)"
    by (simp add: sort_by_score_desc_def image_image)
  finally show ?thesis .
qed

lemma foldl_add_sentence_subset:
  "set (foldl (add_sentence n) acc xs) \<subseteq> set acc \<union> set xs"
proof (induction xs arbitrary: acc)
  case Nil
  show ?case by simp
next
  case (Cons x xs)
  have "set (add_sentence n acc x) \<subseteq> set acc \<union> {x}"
    by (auto simp: add_sentence_def)
  with Cons [of "add_sentence n acc x"] show ?case by auto
qed

lemma segment_no_dots: "x \<in> set (segment k t) \<Longrightarrow> \<not> endswith x ''..''"
proof
  assume x: "x \<in> set (segment k t)" and "endswith x ''..''"
  then have "CHR ''.'' \<in> set x" by (simp add: endswith_dots_mem)
  with x have "\<not> is_terminal CHR ''.''" by (rule segment_no_terminal)
  then show False by (simp add: is_terminal_def)
qed

lemma hybrid_try_sentences:
  assumes "extract_summary_sumy lib t n ''lsa'' = Inr sumy_sentences"
  shows "\<exists>all_sentences. hybrid_try lib t n = Inr all_sentences
           \<and> set all_sentences \<subseteq> set (segment 20 t) \<union> set sumy_sentences \<union> set (segment 50 t)"
proof -
  let ?a1 = "foldl (add_sentence n) [] (extract_key_sentences_regex t n)"
  let ?a2 = "foldl (add_sentence n) ?a1 sumy_sentences"
  let ?a3 = "foldl (add_sentence n) ?a2 (segment 50 t)"
  have s1: "set ?a1 \<subseteq> set (segment 20 t)"
    using foldl_add_sentence_subset [of n "[]" "extract_key_sentences_regex t n"]
      regex_sentences_subset [of t n] by auto
  have s2: "set ?a2 \<subseteq> set (segment 20 t) \<union> set sumy_sentences"
    using foldl_add_sentence_subset [of n ?a1 sumy_sentences] s1 by auto
  have s3: "set ?a3 \<subseteq> set (segment 20 t) \<union> set sumy_sentences \<union> set (segment 50 t)"
    using foldl_add_sentence_subset [of n ?a2 "segment 50 t"] s2 by auto
  have "hybrid_try lib t n = (if int (length ?a2) < n then Inr ?a3 else Inr ?a2)"
    using assms by (simp add: hybrid_try_def Let_def)
  with s2 s3 show ?thesis by auto
qed

lemma segment_no_period: "x \<in> set (segment k t) \<Longrightarrow> CHR ''.'' \<notin> set x"
proof
  assume "x \<in> set (segment k t)" and "CHR ''.'' \<in> set x"
  then have "\<not> is_terminal CHR ''.''" by (rule segment_no_terminal)
  then show False by (simp add: is_terminal_def)
qed

lemma endswith_finish: "endswith (if \<not> endswith joined ''.'' then joined @ ''.'' else joined) ''.''"
  by (simp add: endswith_dot_iff)

lemma endswith_dot_title: "endswith s ''.'' \<Longrightarrow> endswith (title @ '': '' @ s) ''.''"
  by (simp add: endswith_dot_iff)

lemma case_summary_cases:
  assumes "case_text \<noteq> []"
      and "extract_summary_sumy lib case_text n ''lsa'' = Inr sumy_sentences"
  shows "\<exists>summary. extract_case_summary lib case_text title n = Inr summary
           \<and> summary \<noteq> [] \<and> endswith summary ''.''
           \<and> ((\<forall>x \<in> set sumy_sentences. \<not> endswith x ''..'') \<longrightarrow> single_terminal_period summary)"
proof -
  note sm = assms(2)
  from hybrid_try_sentences [OF sm] obtain hybrid where
    h: "hybrid_try lib case_text n = Inr hybrid"
       "set hybrid \<subseteq> set (segment 20 case_text) \<union> set sumy_sentences \<union> set (segment 50 case_text)"
    by blast
  define s1 where "s1 = (if hybrid = [] then extract_key_sentences_regex case_text n else hybrid)"
  define ss where "ss = (if s1 = [] then py_take n (segment 30 case_text) else s1)"
  define joined where "joined = join ''. '' ss"
  define body where "body = (if \<not> endswith joined ''.'' then joined @ ''.'' else joined)"
  have e: "endswith body ''.''"
    unfolding body_def by (rule endswith_finish)
  have b: "single_terminal_period body" if sq: "\<forall>x \<in> set sumy_sentences. \<not> endswith x ''..''"
  proof -
    have hq: "\<forall>x \<in> set hybrid. \<not> endswith x ''..''"
      using h(2) sq segment_no_dots by blast
    have q1: "\<forall>x \<in> set s1. \<not> endswith x ''..''"
      using hq regex_sentences_subset [of case_text n] segment_no_dots
      unfolding s1_def by (cases "hybrid = []") auto
    have q: "\<forall>x \<in> set ss. \<not> endswith x ''..''"
      using q1 set_py_take [of n "segment 30 case_text"] segment_no_dots
      unfolding ss_def by (cases "s1 = []") auto
    have "\<not> endswith joined ''..''"
    proof (cases "ss = []")
      case True
      then show ?thesis by (simp add: joined_def endswith_dots_iff)
    next
      case False
      then have "last ss \<in> set ss" by simp
      with q have "\<not> endswith (last ss) ''..''" by blast
      with join_nonempty_last [OF False] show ?thesis unfolding joined_def by blast
    qed
    then show ?thesis
      unfolding body_def by (rule finish_single_period)
  qed
  have t: "case_summary_try lib case_text title n
             = (case title of None \<Rightarrow> Inr body
                | Some title' \<Rightarrow> if title' = [] then Inr body else Inr (title' @ '': '' @ body))"
    unfolding body_def joined_def ss_def s1_def
    using assms(1) h(1)
    by (cases title) (simp_all add: case_summary_try_def extract_hybrid_summary_def Let_def)
  have ne: "\<And>s. endswith s ''.'' \<Longrightarrow> s \<noteq> []"
    by (simp add: endswith_dot_iff)
  show ?thesis
  proof (cases title)
    case None
    with t e b ne show ?thesis by (simp add: extract_case_summary_def)
  next
    case (Some title')
    show ?thesis
    proof (cases "title' = []")
      case True
      with Some t e b ne show ?thesis by (simp add: extract_case_summary_def)
    next
      case False
      from e have e': "endswith (title' @ '': '' @ body) ''.''"
        by (rule endswith_dot_title)
      have "single_terminal_period (title' @ '': '' @ body)"
        if "\<forall>x \<in> set sumy_sentences. \<not> endswith x ''..''"
        using b [OF that] by (rule single_terminal_period_title)
      with Some False t e' ne [OF e'] show ?thesis by (simp add: extract_case_summary_def)
    qed
  qed
qed

lemma sumy_silent_short:
  "length (strip t) < 200 \<Longrightarrow> extract_summary_sumy lib t n method = Inr []"
  by (simp add: extract_summary_sumy_def sumy_try_def)

lemma sumy_silent_raise:
  "sumy_try lib t n method = Inl e \<Longrightarrow> extract_summary_sumy lib t n method = Inr []"
  by (simp add: extract_summary_sumy_def)

text \<open>
  C1 (amended). For every non-empty text, every title and every sentence count,
  \<open>extract_case_summary\<close> returns a non-empty string that ends with a period. It ends
  with exactly one period provided no sentence contributed by the statistical ranker
  ends with two periods; in particular when the ranker contributes nothing, because the
  trimmed text is shorter than 200 characters or because the library raises. The
  sentences of the heuristic and of the fallbacks never contain a period.
\<close>

theorem case_summary_single_period:
  "(case_text \<noteq> [] \<longrightarrow>
      (\<exists>summary. extract_case_summary lib case_text title n = Inr summary
         \<and> summary \<noteq> [] \<and> endswith summary ''.''
         \<and> ((\<forall>ss. extract_summary_sumy lib case_text n ''lsa'' = Inr ss
                 \<longrightarrow> (\<forall>x \<in> set ss. \<not> endswith x ''..''))
              \<longrightarrow> single_terminal_period summary)
         \<and> (length (strip case_text) < 200 \<longrightarrow> single_terminal_period summary)
         \<and> ((\<exists>e. sumy_try lib case_text n ''lsa'' = Inl e) \<longrightarrow> single_terminal_period summary)))
   \<and> (\<forall>x \<in> set (extract_key_sentences_regex case_text n). CHR ''.'' \<notin> set x)
   \<and> (\<forall>x \<in> set (segment k case_text). CHR ''.'' \<notin> set x)"
proof (intro conjI impI ballI)
  assume ne: "case_text \<noteq> []"
  obtain sumy_sentences where sm: "extract_summary_sumy lib case_text n ''lsa'' = Inr sumy_sentences"
    using extract_summary_sumy_returns by blast
  from case_summary_cases [OF ne sm, of title] obtain summary where
    s: "extract_case_summary lib case_text title n = Inr summary" "summary \<noteq> []"
       "endswith summary ''.''"
       "(\<forall>x \<in> set sumy_sentences. \<not> endswith x ''..'') \<longrightarrow> single_terminal_period summary"
    by blast
  have p1: "(\<forall>ss. extract_summary_sumy lib case_text n ''lsa'' = Inr ss
                 \<longrightarrow> (\<forall>x \<in> set ss. \<not> endswith x ''..''))
              \<longrightarrow> single_terminal_period summary"
    using sm s(4) by blast
  have p2: "length (strip case_text) < 200 \<longrightarrow> single_terminal_period summary"
  proof
    assume "length (strip case_text) < 200"
    from sumy_silent_short [OF this, of lib n "''lsa''"] sm have "sumy_sentences = []" by simp
    with s(4) show "single_terminal_period summary" by simp
  qed
  have p3: "(\<exists>e. sumy_try lib case_text n ''lsa'' = Inl e) \<longrightarrow> single_terminal_period summary"
  proof
    assume "\<exists>e. sumy_try lib case_text n ''lsa'' = Inl e"
    then obtain e where "sumy_try lib case_text n ''lsa'' = Inl e" ..
    from sumy_silent_raise [OF this] sm have "sumy_sentences = []" by simp
    with s(4) show "single_terminal_period summary" by simp
  qed
  from s(1,2,3) p1 p2 p3
  show "\<exists>summary. extract_case_summary lib case_text title n = Inr summary
         \<and> summary \<noteq> [] \<and> endswith summary ''.''
         \<and> ((\<forall>ss. extract_summary_sumy lib case_text n ''lsa'' = Inr ss
                 \<longrightarrow> (\<forall>x \<in> set ss. \<not> endswith x ''..''))
              \<longrightarrow> single_terminal_period summary)
         \<and> (length (strip case_text) < 200 \<longrightarrow> single_terminal_period summary)
         \<and> ((\<exists>e. sumy_try lib case_text n ''lsa'' = Inl e) \<longrightarrow> single_terminal_period summary)"
    by blast
next
  fix x assume "x \<in> set (extract_key_sentences_regex case_text n)"
  then have "x \<in> set (segment 20 case_text)"
    using regex_sentences_subset by blast
  then show "CHR ''.'' \<notin> set x" by (rule segment_no_period)
next
  fix x assume "x \<in> set (segment k case_text)"
  then show "CHR ''.'' \<notin> set x" by (rule segment_no_period)
qed

lemma regex_one_sentence:
  assumes "t \<noteq> []" and "\<not> length (strip t) < 100" and "segment 20 t = [s]"
  shows "extract_key_sentences_regex t 4 = [s]"
  using assms
  by (simp add: extract_key_sentences_regex_def sort_by_score_desc_def py_take_def)

lemma one_sentence_text_differs: "one_sentence_text \<noteq> one_sentence"
  by (simp add: one_sentence_text_def)

lemma hybrid_one_sentence_text:
  "hybrid_try whole_text_sumy one_sentence_text 4 = Inr [one_sentence, one_sentence_text]"
proof -
  have r: "extract_key_sentences_regex one_sentence_text 4 = [one_sentence]"
    using one_sentence_text_long by (intro regex_one_sentence) (simp_all add: segment_one_sentence_text)
  have s: "extract_summary_sumy whole_text_sumy one_sentence_text 4 ''lsa'' = Inr [one_sentence_text]"
    by (simp add: extract_summary_sumy_def sumy_try_whole_text py_take_def)
  show ?thesis
    using one_sentence_text_differs
    by (simp add: hybrid_try_def r s add_sentence_def segment_one_sentence_text)
qed

text \<open>
  C1 (as the claim states it, refuted). The text is one sentence of 275 characters
  followed by an ellipsis. The heuristic selects the sentence without its punctuation;
  the statistical ranker, here a library that returns the sentence as its tokenizer
  found it, contributes the sentence with the ellipsis; the summary is the two joined by
  \<open>. \<close>, it already ends with a period, so nothing is appended, and it ends with
  three periods.
\<close>

theorem summary_single_period_counterexample:
  "one_sentence_text \<noteq> []
   \<and> extract_case_summary whole_text_sumy one_sentence_text None 4
       = Inr (one_sentence @ ''. '' @ one_sentence @ ''...'')
   \<and> \<not> single_terminal_period (one_sentence @ ''. '' @ one_sentence @ ''...'')"
proof (intro conjI)
  show "one_sentence_text \<noteq> []" by (simp add: one_sentence_text_def)
  have e: "endswith (one_sentence @ ''. '' @ one_sentence_text) ''.''"
    by (simp add: endswith_dot_iff one_sentence_text_def)
  show "extract_case_summary whole_text_sumy one_sentence_text None 4
       = Inr (one_sentence @ ''. '' @ one_sentence @ ''...'')"
    using e \<open>one_sentence_text \<noteq> []\<close>
    by (simp add: extract_case_summary_def case_summary_try_def extract_hybrid_summary_def
          hybrid_one_sentence_text) (simp add: one_sentence_text_def)
  have "endswith ((one_sentence @ ''. '' @ one_sentence @ ''.'') @ ''..'') ''..''"
    unfolding endswith_def by (rule suffix_appendI) (rule suffix_order.refl)
  then show "\<not> single_terminal_period (one_sentence @ ''. '' @ one_sentence @ ''...'')"
    by (simp add: single_terminal_period_def)
qed

lemma hybrid_one_sentence_period:
  "hybrid_try whole_text_sumy one_sentence_period 4 = Inr [one_sentence, one_sentence_period]"
proof -
  have l: "one_sentence_period \<noteq> [] \<and> \<not> length (strip one_sentence_period) < 200"
    by (simp add: strip_one_sentence_period) (simp add: one_sentence_period_def length_one_sentence)
  have r: "extract_key_sentences_regex one_sentence_period 4 = [one_sentence]"
    using l by (intro regex_one_sentence) (simp_all add: segment_one_sentence_period)
  have "sumy_try whole_text_sumy one_sentence_period 4 ''lsa'' = Inr [one_sentence_period]"
    using l by (simp add: sumy_try_def whole_text_sumy_def strip_one_sentence_period py_take_def)
  then have s: "extract_summary_sumy whole_text_sumy one_sentence_period 4 ''lsa'' = Inr [one_sentence_period]"
    by (simp add: extract_summary_sumy_def)
  have d: "one_sentence_period \<noteq> one_sentence"
    by (simp add: one_sentence_period_def)
  show ?thesis
    using d by (simp add: hybrid_try_def r s add_sentence_def segment_one_sentence_period)
qed

theorem case_summary_single_period_witness:
  "one_sentence_period \<noteq> []
   \<and> extract_summary_sumy whole_text_sumy one_sentence_period 4 ''lsa'' = Inr [one_sentence_period]
   \<and> \<not> endswith one_sentence_period ''..''
   \<and> extract_case_summary whole_text_sumy one_sentence_period (Some ''Arnesh Kumar'') 4
       = Inr (''Arnesh Kumar: '' @ one_sentence @ ''. '' @ one_sentence @ ''.'')
   \<and> single_terminal_period (''Arnesh Kumar: '' @ one_sentence @ ''. '' @ one_sentence @ ''.'')
   \<and> extract_key_sentences_regex one_sentence_period 4 = [one_sentence]
   \<and> CHR ''.'' \<notin> set one_sentence"
proof -
  have l: "one_sentence_period \<noteq> [] \<and> \<not> length (strip one_sentence_period) < 200"
    by (simp add: strip_one_sentence_period) (simp add: one_sentence_period_def length_one_sentence)
  then have h1: "one_sentence_period \<noteq> []" by simp
  have "sumy_try whole_text_sumy one_sentence_period 4 ''lsa'' = Inr [one_sentence_period]"
    using l by (simp add: sumy_try_def whole_text_sumy_def strip_one_sentence_period py_take_def)
  then have s: "extract_summary_sumy whole_text_sumy one_sentence_period 4 ''lsa'' = Inr [one_sentence_period]"
    by (simp add: extract_summary_sumy_def)
  have n: "\<not> endswith one_sentence_period ''..''"
    using last_one_sentence by (simp add: endswith_dots_iff endswith_dot_iff one_sentence_period_def)
  from s n have h2: "\<forall>ss. extract_summary_sumy whole_text_sumy one_sentence_period 4 ''lsa'' = Inr ss
             \<longrightarrow> (\<forall>x \<in> set ss. \<not> endswith x ''..'')"
    by simp
  have e: "endswith (one_sentence @ ''. '' @ one_sentence_period) ''.''"
    by (simp add: endswith_dot_iff one_sentence_period_def)
  have v: "extract_case_summary whole_text_sumy one_sentence_period (Some ''Arnesh Kumar'') 4
       = Inr (''Arnesh Kumar: '' @ one_sentence @ ''. '' @ one_sentence @ ''.'')"
    using e h1
    by (simp add: extract_case_summary_def case_summary_try_def extract_hybrid_summary_def
          hybrid_one_sentence_period) (simp add: one_sentence_period_def)
  have r: "extract_key_sentences_regex one_sentence_period 4 = [one_sentence]"
    using l by (intro regex_one_sentence) (simp_all add: segment_one_sentence_period)
  note t = case_summary_single_period
    [of one_sentence_period whole_text_sumy "Some ''Arnesh Kumar''" 4 20]
  from t h1 h2 v
  have w1: "single_terminal_period (''Arnesh Kumar: '' @ one_sentence @ ''. '' @ one_sentence @ ''.'')"
    by auto
  from t r have w2: "CHR ''.'' \<notin> set one_sentence"
    by auto
  from h1 s n v w1 r w2 show ?thesis by (intro conjI)
qed

section \<open>Properties of the sentence ranking\<close>

lemma insort_key_position:
  assumes "\<forall>p \<in> set ps. i < fst p"
  shows "map snd (insort_key (\<lambda>p. (f (snd p), fst p)) (i, x) ps) = insort_key f x (map snd ps)"
  using assms
proof (induction ps)
  case Nil
  show ?case by simp
next
  case (Cons p ps)
  then have "i < fst p" by simp
  then have "((f x, i) \<le> (f (snd p), fst p)) = (f x \<le> f (snd p))"
    by (auto simp: less_eq_prod_def)
  with Cons show ?case by simp
qed

lemma sort_key_position:
  "map snd (sort_key (\<lambda>p. (f (snd p), fst p)) (enumerate i xs)) = sort_key f xs"
proof (induction xs arbitrary: i)
  case Nil
  show ?case by simp
next
  case (Cons x xs)
  let ?g = "\<lambda>p. (f (snd p), fst p)"
  have "\<forall>p \<in> set (sort_key ?g (enumerate (Suc i) xs)). i < fst p"
    by (auto simp: in_set_enumerate_eq)
  from insort_key_position [OF this, of f x] Cons [of "Suc i"]
  show ?case by simp
qed

lemma map_py_take: "map f (py_take n xs) = py_take n (map f xs)"
  by (simp add: py_take_def take_map)

lemma sort_by_score_desc_stable:
  "filter (\<lambda>x. snd x = k) (sort_by_score_desc scored) = filter (\<lambda>x. snd x = k) scored"
proof -
  have "filter (\<lambda>x. - snd x = - k) (sort_key (\<lambda>x. - snd x) scored)
          = filter (\<lambda>x. - snd x = - k) scored"
    by (rule sort_key_stable)
  then show ?thesis by (simp add: sort_by_score_desc_def)
qed

lemma sort_by_score_desc_sorted:
  "sorted_wrt (\<lambda>a b. snd b \<le> snd a) (sort_by_score_desc scored)"
proof -
  have "sorted (map (\<lambda>x. - snd x) (sort_by_score_desc scored))"
    by (simp add: sort_by_score_desc_def)
  then show ?thesis by (simp add: sorted_map sorted_wrt_iff_nth_less)
qed


lemma three_sentences_segments:
  "segment 20 three_sentences
     = [''The petition was heard by the bench today'',
        ''The appeal is dismissed with costs'',
        ''The matter is closed and the file is consigned'']"
  by (simp add: three_sentences_def segment_def strip_def is_space_def is_terminal_def starts_terminal_def)

lemma three_sentences_long: "three_sentences \<noteq> [] \<and> \<not> length (strip three_sentences) < 100"
proof -
  have "strip three_sentences = three_sentences"
    by (rule strip_id) (simp_all add: three_sentences_def is_space_def)
  then show ?thesis by (simp add: three_sentences_def)
qed

lemma three_sentences_scores:
  "score ''The petition was heard by the bench today'' = 0
   \<and> score ''The appeal is dismissed with costs'' = 3
   \<and> score ''The matter is closed and the file is consigned'' = 0"
  by code_simp

text \<open>
  C6. The heuristic returns the first \<open>max_sentences\<close> sentences of the scored list
  ordered by score, highest first, and among equal scores by position of appearance,
  earliest first: the stable sort of the source is the sort by the pair of negated
  score and position. In particular sentences of equal score keep their order of
  appearance, and scores never increase along the ranking.
\<close>

theorem key_sentences_ranked_by_score_then_position:
  "extract_key_sentences_regex t n =
     (if t = [] \<or> length (strip t) < 100 then []
      else map (\<lambda>p. fst (snd p))
             (py_take n (sort_key (\<lambda>p. (- snd (snd p), fst p))
                (enumerate 0 (map (\<lambda>sentence. (sentence, score sentence)) (segment 20 t))))))
   \<and> filter (\<lambda>x. snd x = k) (sort_by_score_desc scored) = filter (\<lambda>x. snd x = k) scored
   \<and> sorted_wrt (\<lambda>a b. snd b \<le> snd a) (sort_by_score_desc scored)
   \<and> mset (sort_by_score_desc scored) = mset scored"
proof (intro conjI)
  let ?scored = "map (\<lambda>sentence. (sentence, score sentence)) (segment 20 t)"
  let ?ranked = "sort_key (\<lambda>p. (- snd (snd p), fst p)) (enumerate 0 ?scored)"
  have r: "map snd ?ranked = sort_by_score_desc ?scored"
    unfolding sort_by_score_desc_def by (rule sort_key_position)
  have "map (\<lambda>p. fst (snd p)) (py_take n ?ranked) = map fst (map snd (py_take n ?ranked))"
    by (simp add: comp_def)
  also have "\<dots> = map fst (py_take n (map snd ?ranked))"
    by (simp only: map_py_take)
  also have "\<dots> = map fst (py_take n (sort_by_score_desc ?scored))"
    by (simp only: r)
  finally have "map (\<lambda>p. fst (snd p)) (py_take n ?ranked)
          = map fst (py_take n (sort_by_score_desc ?scored))" .
  then show "extract_key_sentences_regex t n =
     (if t = [] \<or> length (strip t) < 100 then []
      else map (\<lambda>p. fst (snd p))
             (py_take n (sort_key (\<lambda>p. (- snd (snd p), fst p)) (enumerate 0 ?scored))))"
    by (simp add: extract_key_sentences_regex_def)
  show "filter (\<lambda>x. snd x = k) (sort_by_score_desc scored) = filter (\<lambda>x. snd x = k) scored"
    by (rule sort_by_score_desc_stable)
  show "sorted_wrt (\<lambda>a b. snd b \<le> snd a) (sort_by_score_desc scored)"
    by (rule sort_by_score_desc_sorted)
  show "mset (sort_by_score_desc scored) = mset scored"
    by (simp add: sort_by_score_desc_def)
qed


theorem key_sentences_ranked_by_score_then_position_witness:
  "three_sentences \<noteq> [] \<and> \<not> length (strip three_sentences) < 100
   \<and> extract_key_sentences_regex three_sentences 2
       = [''The appeal is dismissed with costs'', ''The petition was heard by the bench today'']
   \<and> extract_key_sentences_regex three_sentences 3
       = [''The appeal is dismissed with costs'', ''The petition was heard by the bench today'',
          ''The matter is closed and the file is consigned'']"
proof -
  note l = three_sentences_long
  have e: "enumerate 0 (map (\<lambda>sentence. (sentence, score sentence)) (segment 20 three_sentences))
      = [(0, ''The petition was heard by the bench today'', 0),
         (1, ''The appeal is dismissed with costs'', 3),
         (2, ''The matter is closed and the file is consigned'', 0)]"
    by (simp add: three_sentences_segments three_sentences_scores)
  have s: "sort_key (\<lambda>p. (- snd (snd p), fst p))
        [(0 :: nat, ''The petition was heard by the bench today'', 0 :: int),
         (1, ''The appeal is dismissed with costs'', 3),
         (2, ''The matter is closed and the file is consigned'', 0)]
      = [(1, ''The appeal is dismissed with costs'', 3),
         (0, ''The petition was heard by the bench today'', 0),
         (2, ''The matter is closed and the file is consigned'', 0)]"
    by (simp add: less_eq_prod_def)
  from key_sentences_ranked_by_score_then_position [of three_sentences 2, THEN conjunct1] l
  have a: "extract_key_sentences_regex three_sentences 2
       = [''The appeal is dismissed with costs'', ''The petition was heard by the bench today'']"
    by (simp add: e s py_take_def)
  from key_sentences_ranked_by_score_then_position [of three_sentences 3, THEN conjunct1] l
  have b: "extract_key_sentences_regex three_sentences 3
       = [''The appeal is dismissed with costs'', ''The petition was heard by the bench today'',
          ''The matter is closed and the file is consigned'']"
    by (simp add: e s py_take_def)
  from l a b show ?thesis by (intro conjI) simp_all
qed

section \<open>Properties of the judge extraction\<close>

lemma no_judges_in_example:
  "concat (map (\<lambda>pattern. re_findall pattern ''The appeal is dismissed'') sc_judge_patterns) = []
   \<and> concat (map (\<lambda>pattern. re_findall pattern ''The appeal is dismissed'') bhc_judge_patterns) = []"
  by code_simp

lemma bhc_court_name_as_judge:
  "concat (map (\<lambda>pattern. re_findall pattern ''Justice Bombay High Court'') bhc_judge_patterns)
     = [''Bombay High Court'']"
  by code_simp

text \<open>
  C9 (as the claim states it, refuted). On the page text \<open>The appeal is dismissed\<close> no
  judge pattern of the Bombay High Court scraper matches, and the result is the court's
  name, \<open>Bombay High Court\<close>: it holds no sentinel that says the judge is unknown, and
  it is the very result of a page on which the pattern \<open>Justice <Name>\<close> matched the
  words \<open>Bombay High Court\<close>.
\<close>

theorem unknown_judge_sentinel_counterexample:
  "concat (map (\<lambda>pattern. re_findall pattern ''The appeal is dismissed'') bhc_judge_patterns) = []
   \<and> bhc_extract_judges ''The appeal is dismissed'' = {''Bombay High Court''}
   \<and> ''Unknown Judge'' \<notin> bhc_extract_judges ''The appeal is dismissed''
   \<and> bhc_extract_judges ''Justice Bombay High Court'' = bhc_extract_judges ''The appeal is dismissed''"
  using no_judges_in_example bhc_court_name_as_judge
  by (simp add: bhc_extract_judges_def)

text \<open>
  C9 (amended). When no judge pattern matches, the result is never empty: it is the
  one-element set of a fixed placeholder, \<open>Unknown Judge\<close> in the Supreme Court
  scraper and the court's name \<open>Bombay High Court\<close> in the Bombay High Court scraper.
  For every page text both results are non-empty.
\<close>

theorem judges_placeholder_when_no_match:
  "(concat (map (\<lambda>pattern. re_findall pattern t) sc_judge_patterns) = []
      \<longrightarrow> sc_extract_judges t = {''Unknown Judge''})
   \<and> (concat (map (\<lambda>pattern. re_findall pattern t) bhc_judge_patterns) = []
      \<longrightarrow> bhc_extract_judges t = {''Bombay High Court''})
   \<and> sc_extract_judges t \<noteq> {}
   \<and> bhc_extract_judges t \<noteq> {}"
  by (simp add: sc_extract_judges_def bhc_extract_judges_def Let_def)

theorem judges_placeholder_when_no_match_witness:
  "concat (map (\<lambda>pattern. re_findall pattern ''The appeal is dismissed'') sc_judge_patterns) = []
   \<and> sc_extract_judges ''The appeal is dismissed'' = {''Unknown Judge''}
   \<and> concat (map (\<lambda>pattern. re_findall pattern ''The appeal is dismissed'') bhc_judge_patterns) = []
   \<and> bhc_extract_judges ''The appeal is dismissed'' = {''Bombay High Court''}"
proof -
  note n = no_judges_in_example
  note j = judges_placeholder_when_no_match [of "''The appeal is dismissed''"]
  from j n have a: "sc_extract_judges ''The appeal is dismissed'' = {''Unknown Judge''}"
    by blast
  from j n have b: "bhc_extract_judges ''The appeal is dismissed'' = {''Bombay High Court''}"
    by blast
  from n a b show ?thesis by (intro conjI) simp_all
qed

section \<open>The segmenter inside the heuristic\<close>



















end
